theory Spec2Isabelle
  imports Main "HOL-Library.Word" "HOL-Library.Sublist" "HOL-Library.Char_ord"
    "HOL-Library.List_Lexorder"
begin

section \<open>The readycash client: session cache and re-authentication\<close>

text \<open>
  A shallow embedding of \<^verbatim>\<open>client.go\<close> and of \<^verbatim>\<open>IsBankSupportedOnUSSD\<close>.
  Go strings are byte sequences, so they are \<^typ>\<open>string\<close> here. Everything the
  client only consumes through an interface or a library (the \<^verbatim>\<open>Storage\<close>
  interface, the HTTP client, the clock, the DES cipher, JSON and URL handling) is a
  field of the record \<open>env\<close>: a function over one opaque external state.
\<close>

subsection \<open>Time\<close>

text \<open>
  A \<^verbatim>\<open>time.Time\<close> is an instant counted in nanoseconds from January 1 of year 1,
  00:00:00 UTC, which is the zero value \<^verbatim>\<open>time.Time{}\<close>; a
  \<^verbatim>\<open>time.Duration\<close> is a count of nanoseconds. Go keeps the seconds of an instant in
  an \<^verbatim>\<open>int64\<close>, and \<^verbatim>\<open>time.Unix(sec, 0)\<close> adds the offset of the Unix epoch to \<open>sec\<close>
  in that type: the sum wraps around, so a stored expiry close to the largest \<^verbatim>\<open>int64\<close>
  becomes an instant far in the past. \<open>int64\<close> is that wrap-around.
  The instants that the clock shows, with a session length added, are far from these
  limits, so \<^verbatim>\<open>Add\<close> and \<^verbatim>\<open>Unix()\<close> are the plain sum and difference.
\<close>

type_synonym Time = int
type_synonym Duration = int

definition unixToInternal :: int where
  "unixToInternal = 62135596800"

definition IsZero :: "Time \<Rightarrow> bool" where
  "IsZero t = (t = 0)"

definition After :: "Time \<Rightarrow> Time \<Rightarrow> bool" where
  "After t u = (u < t)"

definition int64 :: "int \<Rightarrow> int" where
  \<comment> \<open>the value of an integer in two's complement on 64 bits\<close>
  "int64 i = (i + 9223372036854775808) mod 18446744073709551616 - 9223372036854775808"

definition timeUnix :: "int \<Rightarrow> Time" where
  \<comment> \<open>\<^verbatim>\<open>time.Unix(sec, 0)\<close>\<close>
  "timeUnix sec = int64 (sec + unixToInternal) * 1000000000"

definition Unix :: "Time \<Rightarrow> int" where
  \<comment> \<open>\<^verbatim>\<open>t.Unix()\<close>: whole seconds since the Unix epoch\<close>
  "Unix t = t div 1000000000 - unixToInternal"

subsection \<open>Errors\<close>

text \<open>
  An error produced by a collaborator is an opaque message; the client passes it on
  unchanged, which is \<open>External\<close>. \<open>ToErrorResponse data\<close> stands for the value of
  \<^verbatim>\<open>r.toErrorResponse(data)\<close>, which is a function of the body alone. \<open>Panic\<close> is a
  run-time panic of the Go program (a nil dereference).
\<close>

type_synonym xerror = string

datatype error =
    ErrAccountCredentialsRequired
  | ErrLoginFailed string
  | ErrBankNotSupportedOnUSSD
  | ErrEmptyResponse
  | ToErrorResponse string
  | External xerror
  | Panic

subsection \<open>Data model\<close>

record authCacheKey =
  authorizationKey :: string
  sessionIDKey :: string
  expirationKey :: string
  encodedPinKey :: string

record authParams =
  authorization :: string
  sessionID :: string
  expiration :: Time
  encodedPin :: string

record Account =
  UserName :: string
  Password :: string
  Pin :: string
  SessionLength :: Duration

text \<open>
  The fields \<^verbatim>\<open>httpClient\<close>, \<^verbatim>\<open>storage\<close> and \<^verbatim>\<open>logger\<close> of the Go struct are the
  environment; the client proper is the account, the base URL and the session.
\<close>

record Client =
  account :: Account
  baseURL :: string
  access :: authParams

record Request =
  reqMethod :: string
  reqURL :: string
  reqHeader :: "(string \<times> string) list"
  reqBody :: "string option"

datatype body = NoBody | Content string | ReadFailure string xerror

record Response =
  StatusCode :: int
  Header :: "string \<Rightarrow> string"
  Body :: body

text \<open>A \<^verbatim>\<open>float64\<close> is its 64 bits; no arithmetic is done on it here.\<close>

type_synonym float64 = "64 word"

record BalanceEnquiryResponse =
  Income :: float64
  Main :: float64

record UssdTransactionResponse =
  UserDefinedReference :: string
  MerchantRef :: string
  TransactionRef :: string
  UssdString :: string
  Amount :: int
  ResponseCode :: string
  TransactionDate :: int
  ExpiryDate :: int
  CompletionDate :: int
  Status :: string
  PaymentRef :: "string option"
  PayerPhone :: "string option"
  PaymentBank :: "string option"
  PaymentNetwork :: "string option"
  PaymentBankCode :: "string option"

record FetchTransactionOption =
  TranType :: "string option"
  After_opt :: "int option"
  StartDate :: "int option"
  EndDate :: "int option"

datatype failure = Failed xerror | Panicked

fun failure_error :: "failure \<Rightarrow> error" where
  "failure_error (Failed e) = External e"
| "failure_error Panicked = Panic"

record Reciept =
  rcAmount :: float64
  rcDate :: int
  rcReference :: string
  rcRecipient :: string
  rcTranType :: string
  rcExternalReference :: string
  rcBank :: string
  rcAccount :: string
  rcName :: string
  rcNarration :: string
  rcFormattedDate :: string

record WalletTransaction =
  wtDebit :: bool
  wtTranID :: int
  wtTranType :: string
  wtDescription :: string
  wtShortDescription :: string
  wtNarration :: string
  wtLongDescription :: string
  wtDate :: int
  wtAmount :: float64
  wtReciept :: Reciept
  wtBalance :: float64
  wtBalance2 :: float64
  wtLogoID :: string
  wtPosTerminalID :: string
  wtPosTransactionID :: string
  wtFormattedDate :: string

subsection \<open>The environment\<close>

text \<open>
  The collaborators of the client, each a function over the external state \<open>'x\<close>
  (the contents of the store, the remote service, the clock):
  the four methods of the \<^verbatim>\<open>Storage\<close> interface, \<^verbatim>\<open>PostForm\<close> and \<^verbatim>\<open>Do\<close> of the HTTP
  client, \<^verbatim>\<open>time.Now\<close>, and the pure library functions (\<^verbatim>\<open>DesEncrypt\<close>, the
  formatting of the session length, which goes through floating point, URL building,
  \<^verbatim>\<open>http.NewRequest\<close>'s validation, JSON encoding and decoding).
  A Go pair \<^verbatim>\<open>(value, err)\<close> is a pair whose second component is \<open>None\<close> for \<^verbatim>\<open>nil\<close>.
\<close>

record 'x env =
  SetStringFor :: "string \<Rightarrow> string \<Rightarrow> Duration \<Rightarrow> 'x \<Rightarrow> xerror option \<times> 'x"
  SetIntFor :: "string \<Rightarrow> int \<Rightarrow> Duration \<Rightarrow> 'x \<Rightarrow> xerror option \<times> 'x"
  GetString :: "string \<Rightarrow> 'x \<Rightarrow> (string \<times> xerror option) \<times> 'x"
  GetInt :: "string \<Rightarrow> 'x \<Rightarrow> (int \<times> xerror option) \<times> 'x"
  PostForm :: "string \<Rightarrow> (string \<times> string) list \<Rightarrow> 'x \<Rightarrow> (xerror + Response) \<times> 'x"
  Do :: "Request \<Rightarrow> 'x \<Rightarrow> (xerror + Response) \<times> 'x"
  Now :: "'x \<Rightarrow> Time \<times> 'x"
  DesEncrypt :: "string \<Rightarrow> string \<Rightarrow> string \<times> xerror option"
  formatSeconds :: "Duration \<Rightarrow> string"
  buildUrl :: "string \<Rightarrow> (string \<times> string) list list \<Rightarrow> string option"
  checkRequest :: "string \<Rightarrow> string \<Rightarrow> xerror option"
  Marshal :: "float64 \<Rightarrow> string \<Rightarrow> string \<Rightarrow> xerror + string"
  NewBalanceResponse :: "string \<Rightarrow> failure + BalanceEnquiryResponse"
  NewUssdTransactionResponse :: "string \<Rightarrow> UssdTransactionResponse \<times> xerror option"
  NewWalletTransactions :: "string \<Rightarrow> xerror + WalletTransaction list"

text \<open>
  The calls made to the store and to the remote service are recorded, in order, beside
  the external state. The record is only written, never read, by the client.
\<close>

datatype event =
    EvGetString string
  | EvGetInt string
  | EvSetStringFor string string Duration
  | EvSetIntFor string int Duration
  | EvPostForm string "(string \<times> string) list"
  | EvDo Request

record 'x world =
  ext :: 'x
  trace :: "event list"

definition step :: "'x world \<Rightarrow> event \<Rightarrow> 'x \<Rightarrow> 'x world" where
  "step w ev x = \<lparr>ext = x, trace = trace w @ [ev]\<rparr>"

definition callGetString ::
  "'x env \<Rightarrow> string \<Rightarrow> 'x world \<Rightarrow> (string \<times> xerror option) \<times> 'x world" where
  "callGetString e k w =
    (case GetString e k (ext w) of (r, x) \<Rightarrow> (r, step w (EvGetString k) x))"

definition callGetInt ::
  "'x env \<Rightarrow> string \<Rightarrow> 'x world \<Rightarrow> (int \<times> xerror option) \<times> 'x world" where
  "callGetInt e k w =
    (case GetInt e k (ext w) of (r, x) \<Rightarrow> (r, step w (EvGetInt k) x))"

definition callSetStringFor ::
  "'x env \<Rightarrow> string \<Rightarrow> string \<Rightarrow> Duration \<Rightarrow> 'x world \<Rightarrow> xerror option \<times> 'x world" where
  "callSetStringFor e k v d w =
    (case SetStringFor e k v d (ext w) of (r, x) \<Rightarrow> (r, step w (EvSetStringFor k v d) x))"

definition callSetIntFor ::
  "'x env \<Rightarrow> string \<Rightarrow> int \<Rightarrow> Duration \<Rightarrow> 'x world \<Rightarrow> xerror option \<times> 'x world" where
  "callSetIntFor e k v d w =
    (case SetIntFor e k v d (ext w) of (r, x) \<Rightarrow> (r, step w (EvSetIntFor k v d) x))"

definition callPostForm ::
  "'x env \<Rightarrow> string \<Rightarrow> (string \<times> string) list \<Rightarrow> 'x world \<Rightarrow> (xerror + Response) \<times> 'x world"
  where
  "callPostForm e u f w =
    (case PostForm e u f (ext w) of (r, x) \<Rightarrow> (r, step w (EvPostForm u f) x))"

definition callDo ::
  "'x env \<Rightarrow> Request \<Rightarrow> 'x world \<Rightarrow> (xerror + Response) \<times> 'x world" where
  "callDo e q w = (case Do e q (ext w) of (r, x) \<Rightarrow> (r, step w (EvDo q) x))"

definition callNow :: "'x env \<Rightarrow> 'x world \<Rightarrow> Time \<times> 'x world" where
  "callNow e w = (case Now e (ext w) of (t, x) \<Rightarrow> (t, w\<lparr>ext := x\<rparr>))"

subsection \<open>Constants\<close>

definition baseUssdTransaction :: string where
  "baseUssdTransaction = ''/rc/rest/agent/transact/ussd/cashout''"

definition baseFetchUssdTransaction :: string where
  "baseFetchUssdTransaction = ''/rc/rest/agent/transact/ussd/cashout/check''"

definition baseLoginUrl :: string where
  "baseLoginUrl = ''/rc/rest/agent/login''"

definition baseBalanceUrl :: string where
  "baseBalanceUrl = ''/rc/rest/agent/balance''"

definition baseTransactionsUrl :: string where
  "baseTransactionsUrl = ''/rc/rest/agent/tranlist''"

definition StatusOK :: int where "StatusOK = 200"
definition StatusCreated :: int where "StatusCreated = 201"
definition StatusAccepted :: int where "StatusAccepted = 202"
definition StatusForbidden :: int where "StatusForbidden = 403"

subsection \<open>The supported banks\<close>

definition BanksSupportedOnUssd :: "(string \<times> string) list" where
  "BanksSupportedOnUssd =
    [(''057'', ''''), (''058'', ''''), (''033'', ''''), (''039'', ''''), (''232'', ''''),
     (''215'', ''''), (''082'', ''''), (''070'', ''''), (''050'', ''''), (''035'', ''''),
     (''044'', ''''), (''011'', ''''), (''214'', '''')]"

text \<open>
  \<^verbatim>\<open>for bankCode, _ := range BanksSupportedOnUssd { if bankCode == bankCode ... }\<close>:
  the loop variable has the parameter's name, so inside the loop both sides of the
  comparison are the map key and the parameter is not read. Go visits the keys of a
  map in an unspecified order; \<open>rangeBanks\<close> is the loop over any order of them.
\<close>

fun rangeBanks :: "string list \<Rightarrow> string \<Rightarrow> bool" where
  "rangeBanks [] bankCode = False"
| "rangeBanks (key # keys) bankCode = (if key = key then True else rangeBanks keys bankCode)"

definition IsBankSupportedOnUSSD :: "string \<Rightarrow> bool" where
  "IsBankSupportedOnUSSD bankCode = rangeBanks (map fst BanksSupportedOnUssd) bankCode"

subsection \<open>Session state\<close>

definition emptyAccess :: authParams where
  "emptyAccess = \<lparr>authorization = [], sessionID = [], expiration = 0, encodedPin = []\<rparr>"

definition reset :: "authParams \<Rightarrow> authParams" where
  "reset p = p\<lparr>authorization := [], encodedPin := [], sessionID := [], expiration := 0\<rparr>"

subsection \<open>Construction\<close>

text \<open>The argument is a pointer in Go: \<open>None\<close> is \<^verbatim>\<open>nil\<close>.\<close>

definition NewClient :: "Account option \<Rightarrow> string \<Rightarrow> error + Client" where
  "NewClient acct baseUrl =
    (case acct of
       None \<Rightarrow> Inl ErrAccountCredentialsRequired
     | Some a \<Rightarrow>
         if Pin a = [] \<or> UserName a = [] \<or> Password a = []
         then Inl ErrAccountCredentialsRequired
         else Inr \<lparr>account = a, baseURL = baseUrl, access = emptyAccess\<rparr>)"

subsection \<open>Cache keys\<close>

text \<open>
  \<^verbatim>\<open>md5.New().Sum(b)\<close> appends the digest of what was written to the hasher to \<open>b\<close>.
  Nothing was written, so the result is the bytes of the formatted string followed by
  the MD5 digest of the empty message; \<^verbatim>\<open>%x\<close> prints each byte as two lower-case
  hexadecimal digits.
\<close>

definition md5Empty :: string where
  "md5Empty = map char_of
    [0xd4, 0x1d, 0x8c, 0xd9, 0x8f, 0x00, 0xb2, 0x04, 0xe9, 0x80, 0x09, 0x98, 0xec, 0xf8,
     0x42, 0x7e :: nat]"

definition md5Sum :: "string \<Rightarrow> string" where
  "md5Sum b = b @ md5Empty"

definition hexDigit :: "nat \<Rightarrow> char" where
  "hexDigit n = ''0123456789abcdef'' ! n"

definition hexByte :: "char \<Rightarrow> string" where
  "hexByte c = [hexDigit (of_char c div 16), hexDigit (of_char c mod 16)]"

definition hex :: "string \<Rightarrow> string" where
  "hex bs = concat (map hexByte bs)"

definition cacheKeyInput :: "Client \<Rightarrow> string" where
  \<comment> \<open>\<^verbatim>\<open>fmt.Sprintf("%s/%s/%s", r.baseURL, baseLoginUrl, r.account.UserName)\<close>\<close>
  "cacheKeyInput r = baseURL r @ ''/'' @ baseLoginUrl @ ''/'' @ UserName (account r)"

definition makeAuthCacheKeys :: "Client \<Rightarrow> authCacheKey" where
  "makeAuthCacheKeys r =
    (let baseCacheKey = hex (md5Sum (cacheKeyInput r))
     in \<lparr>authorizationKey = baseCacheKey @ ''-auth-token'',
         sessionIDKey = baseCacheKey @ ''-session-id'',
         expirationKey = baseCacheKey @ ''-auth-expiration'',
         encodedPinKey = baseCacheKey @ ''-auth-encoded-pin''\<rparr>)"

definition keysOf :: "authCacheKey \<Rightarrow> string set" where
  "keysOf k = {authorizationKey k, sessionIDKey k, expirationKey k, encodedPinKey k}"

subsection \<open>Validity of the session\<close>

text \<open>\<^verbatim>\<open>time.Now()\<close> is read only when the first two tests have not returned.\<close>

definition hasExpired :: "'x env \<Rightarrow> authParams \<Rightarrow> 'x world \<Rightarrow> bool \<times> 'x world" where
  "hasExpired e p w =
    (if IsZero (expiration p) then (True, w)
     else if sessionID p = [] \<or> authorization p = [] \<or> encodedPin p = [] then (True, w)
     else (case callNow e w of (now, w') \<Rightarrow> (After now (expiration p), w')))"

definition setPin :: "'x env \<Rightarrow> authParams \<Rightarrow> string \<Rightarrow> string \<Rightarrow> authParams \<times> xerror option"
  where
  "setPin e p pin key =
    (case DesEncrypt e pin key of (hexStr, err) \<Rightarrow> (p\<lparr>encodedPin := hexStr\<rparr>, err))"

definition successCode :: "int \<Rightarrow> bool" where
  "successCode statusCode =
    (statusCode = StatusOK \<or> statusCode = StatusCreated \<or> statusCode = StatusAccepted)"

subsection \<open>Login\<close>

text \<open>
  \<open>hydrate\<close> is the first part of \<^verbatim>\<open>login\<close> (the four reads of the store), \<open>persist\<close>
  its last part (the four writes); \<open>login\<close> is the whole function.
\<close>

definition hydrate ::
  "'x env \<Rightarrow> authCacheKey \<Rightarrow> authParams \<Rightarrow> 'x world \<Rightarrow> authParams \<times> 'x world" where
  "hydrate e k a w =
    (case callGetString e (authorizationKey k) w of ((authorizationKeyValue, err1), w1) \<Rightarrow>
     let a1 = (if err1 = None then
                 (if authorizationKeyValue = [] then a
                  else a\<lparr>authorization := authorizationKeyValue\<rparr>)
               else a) in
     case callGetString e (sessionIDKey k) w1 of ((sessionIDKeyValue, err2), w2) \<Rightarrow>
     let a2 = (if err2 = None then
                 (if sessionIDKeyValue = [] then a1
                  else a1\<lparr>sessionID := sessionIDKeyValue\<rparr>)
               else a1) in
     case callGetString e (encodedPinKey k) w2 of ((authEncodedPinValue, err3), w3) \<Rightarrow>
     let a3 = (if err3 = None then
                 (if authEncodedPinValue = [] then a2
                  else a2\<lparr>encodedPin := authEncodedPinValue\<rparr>)
               else a2) in
     case callGetInt e (expirationKey k) w3 of ((authExpirationKeyValue, err4), w4) \<Rightarrow>
     let a4 = (if err4 = None then
                 (if 0 < authExpirationKeyValue
                  then a3\<lparr>expiration := timeUnix authExpirationKeyValue\<rparr>
                  else a3)
               else a3) in
     (a4, w4))"

definition persist ::
  "'x env \<Rightarrow> authCacheKey \<Rightarrow> Client \<Rightarrow> 'x world \<Rightarrow> error option \<times> 'x world" where
  "persist e k r w =
    (let d = SessionLength (account r) in
     case callSetStringFor e (authorizationKey k) (authorization (access r)) d w of
       (Some err, w1) \<Rightarrow> (Some (External err), w1)
     | (None, w1) \<Rightarrow>
     (case callSetStringFor e (sessionIDKey k) (sessionID (access r)) d w1 of
       (Some err, w2) \<Rightarrow> (Some (External err), w2)
     | (None, w2) \<Rightarrow>
     (case callSetStringFor e (encodedPinKey k) (encodedPin (access r)) d w2 of
       (Some err, w3) \<Rightarrow> (Some (External err), w3)
     | (None, w3) \<Rightarrow>
     (case callSetIntFor e (expirationKey k) (Unix (expiration (access r))) d w3 of
       (Some err, w4) \<Rightarrow> (Some (External err), w4)
     | (None, w4) \<Rightarrow> (None, w4)))))"

definition loginPayload :: "'x env \<Rightarrow> Client \<Rightarrow> (string \<times> string) list" where
  "loginPayload e r =
    [(''userName'', UserName (account r)),
     (''password'', Password (account r)),
     (''sessionLength'', formatSeconds e (SessionLength (account r)))]"

definition login :: "'x env \<Rightarrow> Client \<Rightarrow> 'x world \<Rightarrow> error option \<times> Client \<times> 'x world" where
  "login e r w =
    (let k = makeAuthCacheKeys r in
     case hydrate e k (access r) w of (a, w1) \<Rightarrow>
     let r1 = r\<lparr>access := a\<rparr> in
     case hasExpired e a w1 of (expired, w2) \<Rightarrow>
     if \<not> expired then (None, r1, w2)
     else
       (case callPostForm e (baseURL r @ baseLoginUrl) (loginPayload e r) w2 of
         (Inl err, w3) \<Rightarrow> (Some (External err), r1, w3)
       | (Inr res, w3) \<Rightarrow>
           (case Body res of
              NoBody \<Rightarrow> (Some Panic, r1, w3)
            | ReadFailure partial err \<Rightarrow> (Some (External err), r1, w3)
            | Content bodyString \<Rightarrow>
                if \<not> successCode (StatusCode res)
                then (Some (ErrLoginFailed bodyString), r1, w3)
                else
                  let a5 = a\<lparr>authorization := Header res ''Authorization'',
                              sessionID := Header res ''X-SessionID''\<rparr> in
                  (case setPin e a5 (Pin (account r)) (sessionID a5) of
                    (a6, Some err) \<Rightarrow> (Some (External err), r\<lparr>access := a6\<rparr>, w3)
                  | (a6, None) \<Rightarrow>
                      (case callNow e w3 of (now, w4) \<Rightarrow>
                         let r2 = r\<lparr>access := a6\<lparr>expiration := now + SessionLength (account r)\<rparr>\<rparr>
                         in (case persist e k r2 w4 of (res, w5) \<Rightarrow> (res, r2, w5)))))))"

definition hasSessionExpired :: "'x env \<Rightarrow> Client \<Rightarrow> 'x world \<Rightarrow> bool \<times> 'x world" where
  "hasSessionExpired e r w = hasExpired e (access r) w"

definition ensureUserIsAuthenticated ::
  "'x env \<Rightarrow> Client \<Rightarrow> 'x world \<Rightarrow> error option \<times> Client \<times> 'x world" where
  "ensureUserIsAuthenticated e r w =
    (case hasSessionExpired e r w of
       (True, w1) \<Rightarrow> login e r w1
     | (False, w1) \<Rightarrow> (None, r, w1))"

subsection \<open>Requests\<close>

definition generateUrl ::
  "'x env \<Rightarrow> Client \<Rightarrow> string \<Rightarrow> (string \<times> string) list list \<Rightarrow> string option" where
  \<comment> \<open>\<open>None\<close>: \<^verbatim>\<open>url.Parse\<close> failed, its error is dropped and the nil URL is dereferenced\<close>
  "generateUrl e r path queryParams = buildUrl e (baseURL r @ path) queryParams"

definition appendAuthHeaders :: "Client \<Rightarrow> Request \<Rightarrow> Request" where
  "appendAuthHeaders r request =
    request\<lparr>reqHeader := reqHeader request @
      [(''Authorization'', authorization (access r)),
       (''X-SessionID'', sessionID (access r)),
       (''Content-Type'', ''application/json'')]\<rparr>"

text \<open>
  \<^verbatim>\<open>newRequest\<close> copies a non-nil body reader into a scratch buffer before building
  the request, so the reader handed to \<^verbatim>\<open>http.NewRequest\<close> is at its end: the
  request carries an empty body.
\<close>

definition newRequest ::
  "'x env \<Rightarrow> Client \<Rightarrow> string \<Rightarrow> string \<Rightarrow> string option \<Rightarrow> error + Request" where
  "newRequest e r method' url b =
    (case checkRequest e method' url of
       Some err \<Rightarrow> Inl (External err)
     | None \<Rightarrow>
         Inr (appendAuthHeaders r
           \<lparr>reqMethod = method', reqURL = url, reqHeader = [],
            reqBody = (case b of None \<Rightarrow> None | Some content \<Rightarrow> Some [])\<rparr>))"

definition newGetRequest ::
  "'x env \<Rightarrow> Client \<Rightarrow> string \<Rightarrow> string option \<Rightarrow> error + Request" where
  "newGetRequest e r url b = newRequest e r ''GET'' url b"

definition newPostRequest ::
  "'x env \<Rightarrow> Client \<Rightarrow> string \<Rightarrow> string option \<Rightarrow> error + Request" where
  "newPostRequest e r url b = newRequest e r ''POST'' url b"

definition doRequest ::
  "'x env \<Rightarrow> Request \<Rightarrow> 'x world \<Rightarrow> (int \<times> string option \<times> xerror option) \<times> 'x world" where
  "doRequest e req w =
    (case callDo e req w of
       (Inl err, w1) \<Rightarrow> ((0, None, Some err), w1)
     | (Inr res, w1) \<Rightarrow>
         (case Body res of
            NoBody \<Rightarrow> ((StatusCode res, None, None), w1)
          | Content d \<Rightarrow> ((StatusCode res, Some d, None), w1)
          | ReadFailure partial err \<Rightarrow> ((StatusCode res, Some partial, Some err), w1)))"

definition bytes :: "string option \<Rightarrow> string" where
  \<comment> \<open>a nil slice read as a byte sequence\<close>
  "bytes data = (case data of None \<Rightarrow> [] | Some d \<Rightarrow> d)"

definition toErrorResponse :: "string option \<Rightarrow> error" where
  "toErrorResponse data = ToErrorResponse (bytes data)"

subsection \<open>Query options\<close>

fun showNat :: "nat \<Rightarrow> string" where
  "showNat n =
    (if n < 10 then [''0123456789'' ! n] else showNat (n div 10) @ [''0123456789'' ! (n mod 10)])"

definition showInt :: "int \<Rightarrow> string" where
  \<comment> \<open>\<^verbatim>\<open>fmt.Sprintf("%d", i)\<close>\<close>
  "showInt i = (if i < 0 then CHR ''-'' # showNat (nat (- i)) else showNat (nat i))"

definition ToMap :: "FetchTransactionOption \<Rightarrow> (string \<times> string) list" where
  "ToMap opt =
    (case TranType opt of None \<Rightarrow> [] | Some v \<Rightarrow> [(''trantype'', v)]) @
    (case After_opt opt of None \<Rightarrow> [] | Some v \<Rightarrow> [(''after'', showInt v)]) @
    (case StartDate opt of None \<Rightarrow> [] | Some v \<Rightarrow> [(''start_date'', showInt v)]) @
    (case EndDate opt of None \<Rightarrow> [] | Some v \<Rightarrow> [(''end_date'', showInt v)])"

subsection \<open>The authenticated operations\<close>

text \<open>
  An operation returns its result, the client and the world as it leaves them.
  \<^verbatim>\<open>BalanceEnquiry\<close> and \<^verbatim>\<open>FetchTransaction\<close> call themselves; their first argument
  bounds the depth of these calls, and \<open>None\<close> says that the bound was reached before
  the call returned.
\<close>

type_synonym ('a, 'x) outcome = "(error + 'a) \<times> Client \<times> 'x world"

fun BalanceEnquiry ::
  "nat \<Rightarrow> 'x env \<Rightarrow> Client \<Rightarrow> 'x world \<Rightarrow> (BalanceEnquiryResponse, 'x) outcome option" where
  "BalanceEnquiry 0 e r w = None"
| "BalanceEnquiry (Suc fuel) e r w =
    (case ensureUserIsAuthenticated e r w of
       (Some err, r1, w1) \<Rightarrow> Some (Inl err, r1, w1)
     | (None, r1, w1) \<Rightarrow>
         (case generateUrl e r1 baseBalanceUrl [] of
            None \<Rightarrow> Some (Inl Panic, r1, w1)
          | Some balanceURL \<Rightarrow>
              (case newGetRequest e r1 balanceURL None of
                 Inl err \<Rightarrow> Some (Inl err, r1, w1)
               | Inr request \<Rightarrow>
                   (case doRequest e request w1 of
                      ((statusCode, data, Some err), w2) \<Rightarrow> Some (Inl (External err), r1, w2)
                    | ((statusCode, data, None), w2) \<Rightarrow>
                        if statusCode = StatusForbidden
                        then BalanceEnquiry fuel e (r1\<lparr>access := reset (access r1)\<rparr>) w2
                        else if \<not> successCode statusCode
                        then Some (Inl (toErrorResponse data), r1, w2)
                        else
                          (case NewBalanceResponse e (bytes data) of
                             Inl f \<Rightarrow> Some (Inl (failure_error f), r1, w2)
                           | Inr b \<Rightarrow> Some (Inr b, r1, w2))))))"

definition GenerateUSSD ::
  "'x env \<Rightarrow> Client \<Rightarrow> 'x world \<Rightarrow> string \<Rightarrow> float64 \<Rightarrow> string \<Rightarrow>
   (UssdTransactionResponse, 'x) outcome" where
  "GenerateUSSD e r w reference amount bankCode =
    (if \<not> IsBankSupportedOnUSSD bankCode then (Inl ErrBankNotSupportedOnUSSD, r, w)
     else
       (case ensureUserIsAuthenticated e r w of
          (Some err, r1, w1) \<Rightarrow> (Inl err, r1, w1)
        | (None, r1, w1) \<Rightarrow>
            (case Marshal e amount bankCode reference of
               Inl err \<Rightarrow> (Inl (External err), r1, w1)
             | Inr payloadBytes \<Rightarrow>
                 (case generateUrl e r1 baseUssdTransaction [] of
                    None \<Rightarrow> (Inl Panic, r1, w1)
                  | Some ussdGenerationUrl \<Rightarrow>
                      (case newPostRequest e r1 ussdGenerationUrl (Some payloadBytes) of
                         Inl err \<Rightarrow> (Inl err, r1, w1)
                       | Inr request \<Rightarrow>
                           (case doRequest e request w1 of
                              ((statusCode, data, Some err), w2) \<Rightarrow>
                                (Inl (External err), r1, w2)
                            | ((statusCode, None, None), w2) \<Rightarrow> (Inl ErrEmptyResponse, r1, w2)
                            | ((statusCode, Some d, None), w2) \<Rightarrow>
                                if \<not> successCode statusCode
                                then (Inl (toErrorResponse (Some d)), r1, w2)
                                else
                                  (case NewUssdTransactionResponse e d of
                                     (res, Some err) \<Rightarrow> (Inl (External err), r1, w2)
                                   | (res, None) \<Rightarrow>
                                       (Inr (res\<lparr>UserDefinedReference := reference\<rparr>),
                                        r1, w2))))))))"

definition FetchUSSDTransaction ::
  "'x env \<Rightarrow> Client \<Rightarrow> 'x world \<Rightarrow> string \<Rightarrow> (UssdTransactionResponse, 'x) outcome" where
  "FetchUSSDTransaction e r w reference =
    (case ensureUserIsAuthenticated e r w of
       (Some err, r1, w1) \<Rightarrow> (Inl err, r1, w1)
     | (None, r1, w1) \<Rightarrow>
         (case generateUrl e r1 baseFetchUssdTransaction [[(''senderRef'', reference)]] of
            None \<Rightarrow> (Inl Panic, r1, w1)
          | Some fetchUssdTransactionUrl \<Rightarrow>
              (case newGetRequest e r1 fetchUssdTransactionUrl None of
                 Inl err \<Rightarrow> (Inl err, r1, w1)
               | Inr request \<Rightarrow>
                   (case doRequest e request w1 of
                      ((statusCode, data, Some err), w2) \<Rightarrow> (Inl (External err), r1, w2)
                    | ((statusCode, None, None), w2) \<Rightarrow> (Inl ErrEmptyResponse, r1, w2)
                    | ((statusCode, Some d, None), w2) \<Rightarrow>
                        if \<not> successCode statusCode
                        then (Inl (toErrorResponse (Some d)), r1, w2)
                        else
                          (case NewUssdTransactionResponse e d of
                             (res, Some err) \<Rightarrow> (Inl (External err), r1, w2)
                           | (res, None) \<Rightarrow>
                               (Inr (res\<lparr>UserDefinedReference := reference\<rparr>), r1, w2))))))"

fun FetchTransaction ::
  "nat \<Rightarrow> 'x env \<Rightarrow> Client \<Rightarrow> 'x world \<Rightarrow> FetchTransactionOption option \<Rightarrow>
   (WalletTransaction list, 'x) outcome option" where
  "FetchTransaction 0 e r w options = None"
| "FetchTransaction (Suc fuel) e r w options =
    (case ensureUserIsAuthenticated e r w of
       (Some err, r1, w1) \<Rightarrow> Some (Inl err, r1, w1)
     | (None, r1, w1) \<Rightarrow>
         (let queryParams = (case options of None \<Rightarrow> [] | Some opt \<Rightarrow> ToMap opt) in
          case generateUrl e r1 baseTransactionsUrl [queryParams] of
            None \<Rightarrow> Some (Inl Panic, r1, w1)
          | Some transactionsUrl \<Rightarrow>
              (case newGetRequest e r1 transactionsUrl None of
                 Inl err \<Rightarrow> Some (Inl err, r1, w1)
               | Inr request \<Rightarrow>
                   (case doRequest e request w1 of
                      ((statusCode, data, Some err), w2) \<Rightarrow> Some (Inl (External err), r1, w2)
                    | ((statusCode, None, None), w2) \<Rightarrow> Some (Inl ErrEmptyResponse, r1, w2)
                    | ((statusCode, Some d, None), w2) \<Rightarrow>
                        if statusCode = StatusForbidden
                        then FetchTransaction fuel e (r1\<lparr>access := reset (access r1)\<rparr>) w2 options
                        else if \<not> successCode statusCode
                        then Some (Inl (toErrorResponse (Some d)), r1, w2)
                        else
                          (case NewWalletTransactions e d of
                             Inl err \<Rightarrow> Some (Inl (External err), r1, w2)
                           | Inr ts \<Rightarrow> Some (Inr ts, r1, w2))))))"

subsection \<open>Rounds answered with 403\<close>

text \<open>
  \<open>forbiddenBalance n e r w\<close> follows the first \<open>n\<close> rounds of \<^verbatim>\<open>BalanceEnquiry\<close> from the
  client \<open>r\<close> and the world \<open>w\<close>, as long as each round gets as far as its request and
  the request is answered with the status 403. It returns the client and the world
  with which the next round starts, and \<open>None\<close> when one of the rounds ends in another
  way. \<open>forbiddenFetch\<close> is the same for \<^verbatim>\<open>FetchTransaction\<close>.
\<close>

fun forbiddenBalance :: "nat \<Rightarrow> 'x env \<Rightarrow> Client \<Rightarrow> 'x world \<Rightarrow> (Client \<times> 'x world) option" where
  "forbiddenBalance 0 e r w = Some (r, w)"
| "forbiddenBalance (Suc n) e r w =
    (case ensureUserIsAuthenticated e r w of
       (Some err, r1, w1) \<Rightarrow> None
     | (None, r1, w1) \<Rightarrow>
         (case generateUrl e r1 baseBalanceUrl [] of
            None \<Rightarrow> None
          | Some balanceURL \<Rightarrow>
              (case newGetRequest e r1 balanceURL None of
                 Inl err \<Rightarrow> None
               | Inr request \<Rightarrow>
                   (case doRequest e request w1 of
                      ((statusCode, data, Some err), w2) \<Rightarrow> None
                    | ((statusCode, data, None), w2) \<Rightarrow>
                        if statusCode = StatusForbidden
                        then forbiddenBalance n e (r1\<lparr>access := reset (access r1)\<rparr>) w2
                        else None))))"

fun forbiddenFetch ::
  "nat \<Rightarrow> 'x env \<Rightarrow> Client \<Rightarrow> 'x world \<Rightarrow> FetchTransactionOption option \<Rightarrow>
   (Client \<times> 'x world) option" where
  "forbiddenFetch 0 e r w options = Some (r, w)"
| "forbiddenFetch (Suc n) e r w options =
    (case ensureUserIsAuthenticated e r w of
       (Some err, r1, w1) \<Rightarrow> None
     | (None, r1, w1) \<Rightarrow>
         (let queryParams = (case options of None \<Rightarrow> [] | Some opt \<Rightarrow> ToMap opt) in
          case generateUrl e r1 baseTransactionsUrl [queryParams] of
            None \<Rightarrow> None
          | Some transactionsUrl \<Rightarrow>
              (case newGetRequest e r1 transactionsUrl None of
                 Inl err \<Rightarrow> None
               | Inr request \<Rightarrow>
                   (case doRequest e request w1 of
                      ((statusCode, data, Some err), w2) \<Rightarrow> None
                    | ((statusCode, None, None), w2) \<Rightarrow> None
                    | ((statusCode, Some d, None), w2) \<Rightarrow>
                        if statusCode = StatusForbidden
                        then forbiddenFetch n e (r1\<lparr>access := reset (access r1)\<rparr>) w2 options
                        else None))))"

subsection \<open>A test double of the environment\<close>

text \<open>
  A concrete environment on which the definitions can be run: the in-memory store of
  the repository's tests (\<^verbatim>\<open>mockStore\<close>: one table that holds strings and integers,
  here a list of bindings in which the newest binding of a key is the first)
  extended with a list of keys whose writes are rejected, a remote service that answers
  the login with a token and a session id and answers the next \<open>forbidden\<close> operation
  requests with 403, and a clock that stands still. The timers that evict the entries of
  \<^verbatim>\<open>mockStore\<close> run in real time and are left out.
\<close>

datatype stored = StoredString string | StoredInt int

record sim =
  table :: "(string \<times> stored) list"
  rejected :: "string list"
  forbidden :: nat
  clock :: Time

definition simSetStringFor :: "string \<Rightarrow> string \<Rightarrow> Duration \<Rightarrow> sim \<Rightarrow> xerror option \<times> sim" where
  "simSetStringFor key val exp x =
    (if key \<in> set (rejected x) then (Some ''write rejected'', x)
     else (None, x\<lparr>table := (key, StoredString val) # table x\<rparr>))"

definition simSetIntFor :: "string \<Rightarrow> int \<Rightarrow> Duration \<Rightarrow> sim \<Rightarrow> xerror option \<times> sim" where
  "simSetIntFor key val exp x =
    (if key \<in> set (rejected x) then (Some ''write rejected'', x)
     else (None, x\<lparr>table := (key, StoredInt val) # table x\<rparr>))"

definition simGetString :: "string \<Rightarrow> sim \<Rightarrow> (string \<times> xerror option) \<times> sim" where
  "simGetString key x =
    (case map_of (table x) key of
       None \<Rightarrow> (([], Some ''data not found''), x)
     | Some (StoredString v) \<Rightarrow> ((v, None), x)
     | Some (StoredInt i) \<Rightarrow> ((showInt i, None), x))"

definition simGetInt :: "string \<Rightarrow> sim \<Rightarrow> (int \<times> xerror option) \<times> sim" where
  "simGetInt key x =
    (case map_of (table x) key of
       None \<Rightarrow> ((0, Some ''data not found''), x)
     | Some (StoredString v) \<Rightarrow> ((0, Some ''not a number''), x)
     | Some (StoredInt i) \<Rightarrow> ((i, None), x))"

definition simLoginHeader :: "string \<Rightarrow> string" where
  "simLoginHeader h =
    (if h = ''Authorization'' then ''Bearer Token''
     else if h = ''X-SessionID'' then ''1234'' else [])"

definition simPostForm ::
  "string \<Rightarrow> (string \<times> string) list \<Rightarrow> sim \<Rightarrow> (xerror + Response) \<times> sim" where
  "simPostForm u f x =
    (Inr \<lparr>StatusCode = 200, Header = simLoginHeader, Body = Content ''{}''\<rparr>, x)"

text \<open>
  The remote service answers a request for the list of transactions with the empty
  JSON array and every other request with the empty JSON object.
\<close>

definition simBody :: "string \<Rightarrow> string" where
  "simBody u =
    (if take 31 u = ''http://h/rc/rest/agent/tranlist'' then ''[]'' else ''{}'')"

definition simDo :: "Request \<Rightarrow> sim \<Rightarrow> (xerror + Response) \<times> sim" where
  "simDo q x =
    (if 0 < forbidden x
     then (Inr \<lparr>StatusCode = 403, Header = (\<lambda>h. []), Body = Content ''Forbidden''\<rparr>,
           x\<lparr>forbidden := forbidden x - 1\<rparr>)
     else (Inr \<lparr>StatusCode = 200, Header = (\<lambda>h. []), Body = Content (simBody (reqURL q))\<rparr>,
           x))"

text \<open>
  The pure functions of the test double are those of the Go libraries on the arguments
  that the clients of the test double give them, and refuse any other argument
  (an error, or \<open>None\<close> for the URL); no evaluation below reaches a refused argument.

  \<^verbatim>\<open>fmt.Sprintf("%d", int64(d.Seconds()))\<close>: \<^verbatim>\<open>Seconds\<close> adds, in \<^verbatim>\<open>float64\<close>, the whole
  seconds and the remaining nanoseconds divided by \<open>10 ^ 9\<close>, and the conversion to
  \<^verbatim>\<open>int64\<close> drops the fraction. The sum is rounded to 53 bits, so it reaches the next
  whole second when the fraction is within half a unit in the last place of it, which
  needs at least \<open>2 ^ 24\<close> seconds; a negative duration is the mirror image.
\<close>

fun pow2le :: "nat \<Rightarrow> nat" where
  "pow2le n = (if n < 2 then 1 else 2 * pow2le (n div 2))"

definition wholeSeconds :: "nat \<Rightarrow> nat" where
  "wholeSeconds d =
    (let sec = d div 1000000000; nsec = d mod 1000000000
     in if 1 \<le> sec \<and> (1000000000 - nsec) * 2 ^ 53 < 1000000000 * pow2le sec
        then sec + 1 else sec)"

definition simFormatSeconds :: "Duration \<Rightarrow> string" where
  "simFormatSeconds d =
    showInt (if d < 0 then - int (wholeSeconds (nat (- d))) else int (wholeSeconds (nat d)))"

text \<open>
  URLs: the base URL of the test double followed by a path of lower-case letters,
  digits, \<^verbatim>\<open>/\<close> and \<^verbatim>\<open>_\<close> is printed by \<^verbatim>\<open>net/url\<close> as it was read; the query is added as
  \<^verbatim>\<open>url.Values.Encode\<close> prints it (keys in order, each key and value escaped).
\<close>

definition pathChar :: "char \<Rightarrow> bool" where
  "pathChar c = (c \<in> set ''abcdefghijklmnopqrstuvwxyz0123456789/_'')"

definition simpleUrl :: "string \<Rightarrow> bool" where
  "simpleUrl u =
    (take 8 u = ''http://h'' \<and> (drop 8 u = [] \<or> take 1 (drop 8 u) = ''/'') \<and>
     list_all pathChar (drop 8 u))"

definition unreserved :: "char \<Rightarrow> bool" where
  "unreserved c =
    (c \<in> set ''ABCDEFGHIJKLMNOPQRSTUVWXYZabcdefghijklmnopqrstuvwxyz0123456789-_.~'')"

definition escapeByte :: "char \<Rightarrow> string" where
  "escapeByte c =
    (if unreserved c then [c]
     else if c = CHR '' '' then ''+''
     else [CHR ''%'', ''0123456789ABCDEF'' ! (of_char c div 16),
           ''0123456789ABCDEF'' ! (of_char c mod 16)])"

definition queryEscape :: "string \<Rightarrow> string" where
  "queryEscape v = concat (map escapeByte v)"

fun joinQuery :: "(string \<times> string) list \<Rightarrow> string" where
  "joinQuery [] = []"
| "joinQuery [(k, v)] = queryEscape k @ ''='' @ queryEscape v"
| "joinQuery ((k, v) # kvs) = queryEscape k @ ''='' @ queryEscape v @ ''&'' @ joinQuery kvs"

definition simBuildUrl :: "string \<Rightarrow> (string \<times> string) list list \<Rightarrow> string option" where
  "simBuildUrl u queryParams =
    (if simpleUrl u
     then (case sort_key fst (concat queryParams) of
             [] \<Rightarrow> Some u
           | kv # kvs \<Rightarrow> Some (u @ ''?'' @ joinQuery (kv # kvs)))
     else None)"

definition queryChar :: "char \<Rightarrow> bool" where
  "queryChar c = (unreserved c \<or> c \<in> set ''%+=&'')"

definition simCheckRequest :: "string \<Rightarrow> string \<Rightarrow> xerror option" where
  "simCheckRequest m u =
    (if (m = ''GET'' \<or> m = ''POST'') \<and> simpleUrl (takeWhile (\<lambda>c. c \<noteq> CHR ''?'') u) \<and>
        list_all queryChar (drop 1 (dropWhile (\<lambda>c. c \<noteq> CHR ''?'') u))
     then None else Some ''request not built'')"

text \<open>
  JSON: the payload of \<^verbatim>\<open>GenerateUSSD\<close> for the amount zero and a bank code and a
  reference of letters and digits, and the decoding of the two bodies that the remote
  service of the test double sends: the empty object leaves every field of the decoded
  struct at its zero value, the empty array is the empty list of transactions.
\<close>

definition alnum :: "char \<Rightarrow> bool" where
  "alnum c = (c \<in> set ''ABCDEFGHIJKLMNOPQRSTUVWXYZabcdefghijklmnopqrstuvwxyz0123456789'')"

definition quoted :: "string \<Rightarrow> string" where
  "quoted v = [CHR 0x22] @ v @ [CHR 0x22]"

definition simMarshal :: "float64 \<Rightarrow> string \<Rightarrow> string \<Rightarrow> xerror + string" where
  "simMarshal amount bankCode reference =
    (if amount = 0 \<and> list_all alnum bankCode \<and> list_all alnum reference
     then Inr (''{'' @ quoted ''amount'' @ '':0,'' @ quoted ''bankCode'' @ '':'' @ quoted bankCode @
               '','' @ quoted ''ref'' @ '':'' @ quoted reference @ ''}'')
     else Inl ''payload not encoded'')"

definition simBalance :: BalanceEnquiryResponse where
  "simBalance = \<lparr>Income = 0, Main = 0\<rparr>"

definition simUssd :: UssdTransactionResponse where
  "simUssd =
    \<lparr>UserDefinedReference = [], MerchantRef = [], TransactionRef = [],
     UssdString = [], Amount = 0, ResponseCode = [], TransactionDate = 0,
     ExpiryDate = 0, CompletionDate = 0, Status = [], PaymentRef = None,
     PayerPhone = None, PaymentBank = None, PaymentNetwork = None, PaymentBankCode = None\<rparr>"

definition simNewBalanceResponse :: "string \<Rightarrow> failure + BalanceEnquiryResponse" where
  "simNewBalanceResponse d = (if d = ''{}'' then Inr simBalance else Inl (Failed ''body not decoded''))"

definition simNewUssdTransactionResponse :: "string \<Rightarrow> UssdTransactionResponse \<times> xerror option"
  where
  "simNewUssdTransactionResponse d =
    (if d = ''{}'' then (simUssd, None) else (simUssd, Some ''body not decoded''))"

definition simNewWalletTransactions :: "string \<Rightarrow> xerror + WalletTransaction list" where
  "simNewWalletTransactions d = (if d = ''[]'' then Inr [] else Inl ''body not decoded'')"

text \<open>
  The cipher is not part of the sources; the test double puts the hexadecimal print of
  the PIN and the key in its place.
\<close>

definition simEnv :: "sim env" where
  "simEnv =
    \<lparr>SetStringFor = simSetStringFor,
     SetIntFor = simSetIntFor,
     GetString = simGetString,
     GetInt = simGetInt,
     PostForm = simPostForm,
     Do = simDo,
     Now = (\<lambda>x. (clock x, x)),
     DesEncrypt = (\<lambda>pin key. (hex (pin @ key), None)),
     formatSeconds = simFormatSeconds,
     buildUrl = simBuildUrl,
     checkRequest = simCheckRequest,
     Marshal = simMarshal,
     NewBalanceResponse = simNewBalanceResponse,
     NewUssdTransactionResponse = simNewUssdTransactionResponse,
     NewWalletTransactions = simNewWalletTransactions\<rparr>"

definition simAccount :: Account where
  "simAccount =
    \<lparr>UserName = ''sample'', Password = ''password'', Pin = ''1234'',
     SessionLength = 3600000000000\<rparr>"

definition simClient :: Client where
  "simClient = \<lparr>account = simAccount, baseURL = ''http://h'', access = emptyAccess\<rparr>"

definition simWorld :: "nat \<Rightarrow> sim world" where
  "simWorld n =
    \<lparr>ext = \<lparr>table = [], rejected = [], forbidden = n, clock = timeUnix 1700000000\<rparr>,
     trace = []\<rparr>"

definition isDo :: "event \<Rightarrow> bool" where
  "isDo ev = (case ev of EvDo q \<Rightarrow> True | _ \<Rightarrow> False)"

definition isPostForm :: "event \<Rightarrow> bool" where
  "isPostForm ev = (case ev of EvPostForm u f \<Rightarrow> True | _ \<Rightarrow> False)"

definition isRead :: "event \<Rightarrow> bool" where
  "isRead ev = (case ev of EvGetString k \<Rightarrow> True | EvGetInt k \<Rightarrow> True | _ \<Rightarrow> False)"

subsection \<open>Reading an outcome\<close>

definition hydrationReads :: "authCacheKey \<Rightarrow> event list" where
  "hydrationReads k =
    [EvGetString (authorizationKey k), EvGetString (sessionIDKey k),
     EvGetString (encodedPinKey k), EvGetInt (expirationKey k)]"

definition persistWrites :: "authCacheKey \<Rightarrow> Client \<Rightarrow> event list" where
  "persistWrites k r =
    [EvSetStringFor (authorizationKey k) (authorization (access r)) (SessionLength (account r)),
     EvSetStringFor (sessionIDKey k) (sessionID (access r)) (SessionLength (account r)),
     EvSetStringFor (encodedPinKey k) (encodedPin (access r)) (SessionLength (account r)),
     EvSetIntFor (expirationKey k) (Unix (expiration (access r))) (SessionLength (account r))]"

definition resultOf :: "('a, 'x) outcome option \<Rightarrow> (error + 'a) option" where
  "resultOf out = (case out of None \<Rightarrow> None | Some (res, r, w) \<Rightarrow> Some res)"

definition traceOf :: "('a, 'x) outcome option \<Rightarrow> event list" where
  "traceOf out = (case out of None \<Rightarrow> [] | Some (res, r, w) \<Rightarrow> trace w)"

definition boundarySession :: authParams where
  \<comment> \<open>a complete session whose expiry is the instant shown by the clock of \<open>simWorld\<close>\<close>
  "boundarySession =
    \<lparr>authorization = ''Bearer Token'', sessionID = ''1234'',
     expiration = timeUnix 1700000000, encodedPin = ''3132333431323334''\<rparr>"

definition collideA :: Client where
  "collideA =
    \<lparr>account = simAccount\<lparr>UserName := ''x//rc/rest/agent/login/y''\<rparr>, baseURL = ''a'',
     access = emptyAccess\<rparr>"

definition collideB :: Client where
  "collideB =
    \<lparr>account = simAccount\<lparr>UserName := ''y''\<rparr>, baseURL = ''a//rc/rest/agent/login/x'',
     access = emptyAccess\<rparr>"

definition otherClient :: Client where
  "otherClient = simClient\<lparr>account := simAccount\<lparr>UserName := ''other''\<rparr>\<rparr>"

text \<open>
  Worlds, sessions and requests of the test double that the evaluations below start
  from or arrive at: the keys of \<open>simClient\<close>, the session that the login of the test
  double produces and the table that holds it, the events of that login, and the worlds
  in which the session has been stored.
\<close>

definition rejectWorld :: "sim world" where
  "rejectWorld =
    \<lparr>ext = \<lparr>table = [], rejected = [sessionIDKey (makeAuthCacheKeys simClient)], forbidden = 0,
            clock = timeUnix 1700000000\<rparr>,
     trace = []\<rparr>"

definition partialWorld :: "sim world" where
  "partialWorld =
    \<lparr>ext = \<lparr>table = [(authorizationKey (makeAuthCacheKeys simClient), StoredString ''T2''),
                      (expirationKey (makeAuthCacheKeys simClient), StoredInt 1700003600)],
            rejected = [], forbidden = 0, clock = timeUnix 1700000000\<rparr>,
     trace = []\<rparr>"

definition simKeys :: authCacheKey where
  "simKeys = makeAuthCacheKeys simClient"

definition loggedSession :: authParams where
  "loggedSession =
    \<lparr>authorization = ''Bearer Token'', sessionID = ''1234'',
     expiration = timeUnix 1700003600, encodedPin = ''3132333431323334''\<rparr>"

definition loggedClient :: Client where
  "loggedClient = simClient\<lparr>access := loggedSession\<rparr>"

definition loggedTable :: "(string \<times> stored) list" where
  "loggedTable =
    [(expirationKey simKeys, StoredInt 1700003600),
     (encodedPinKey simKeys, StoredString ''3132333431323334''),
     (sessionIDKey simKeys, StoredString ''1234''),
     (authorizationKey simKeys, StoredString ''Bearer Token'')]"

definition loginEvents :: "event list" where
  "loginEvents =
    hydrationReads simKeys @
    [EvPostForm ''http://h/rc/rest/agent/login''
       [(''userName'', ''sample''), (''password'', ''password''), (''sessionLength'', ''3600'')]] @
    persistWrites simKeys loggedClient"

definition loggedWorld :: "nat \<Rightarrow> event list \<Rightarrow> sim world" where
  "loggedWorld n tr =
    \<lparr>ext = \<lparr>table = loggedTable, rejected = [], forbidden = n, clock = timeUnix 1700000000\<rparr>,
     trace = tr\<rparr>"

definition sessionClient :: Client where
  "sessionClient = simClient\<lparr>access := boundarySession\<rparr>"

definition authHeaders :: "(string \<times> string) list" where
  "authHeaders =
    [(''Authorization'', ''Bearer Token''), (''X-SessionID'', ''1234''),
     (''Content-Type'', ''application/json'')]"

definition balanceRequest :: Request where
  "balanceRequest =
    \<lparr>reqMethod = ''GET'', reqURL = ''http://h/rc/rest/agent/balance'',
     reqHeader = authHeaders, reqBody = None\<rparr>"

definition tranRequest :: Request where
  "tranRequest =
    \<lparr>reqMethod = ''GET'', reqURL = ''http://h/rc/rest/agent/tranlist'',
     reqHeader = authHeaders, reqBody = None\<rparr>"

definition ussdRequest :: Request where
  "ussdRequest =
    \<lparr>reqMethod = ''POST'', reqURL = ''http://h/rc/rest/agent/transact/ussd/cashout'',
     reqHeader = authHeaders, reqBody = Some []\<rparr>"

definition fetchUssdRequest :: Request where
  "fetchUssdRequest =
    \<lparr>reqMethod = ''GET'',
     reqURL = ''http://h/rc/rest/agent/transact/ussd/cashout/check?senderRef=ref'',
     reqHeader = authHeaders, reqBody = None\<rparr>"

section \<open>Properties\<close>

subsection \<open>Construction of the client\<close>

text \<open>
  Claim C9. \<^verbatim>\<open>NewClient\<close> fails with \<^verbatim>\<open>ErrAccountCredentialsRequired\<close> exactly when the
  account is absent or its user name, password or PIN is empty; in every other case it
  returns a client for that account, with an empty session. \<open>NewClient\<close> is a function
  of its arguments alone: it is given no environment, so it makes no network call.
\<close>

theorem NewClient_requires_credentials:
  "(NewClient acct baseUrl = Inl ErrAccountCredentialsRequired) =
     (case acct of
        None \<Rightarrow> True
      | Some a \<Rightarrow> UserName a = [] \<or> Password a = [] \<or> Pin a = []) \<and>
   (NewClient acct baseUrl = Inl ErrAccountCredentialsRequired \<or>
     (case acct of
        None \<Rightarrow> False
      | Some a \<Rightarrow>
          NewClient acct baseUrl = Inr \<lparr>account = a, baseURL = baseUrl, access = emptyAccess\<rparr>))"
  by (auto simp: NewClient_def split: option.splits)

theorem NewClient_requires_credentials_witness:
  "NewClient (Some simAccount) ''http://h'' = Inr simClient \<and>
   NewClient (Some (simAccount\<lparr>Pin := []\<rparr>)) ''http://h'' = Inl ErrAccountCredentialsRequired"
  using NewClient_requires_credentials [of "Some simAccount" "''http://h''"]
    NewClient_requires_credentials [of "Some (simAccount\<lparr>Pin := []\<rparr>)" "''http://h''"]
  by (auto simp add: simAccount_def simClient_def)

subsection \<open>Validity of the session\<close>

text \<open>
  Claim C3, as the code has it. The session is valid (\<^verbatim>\<open>hasExpired\<close> returns false)
  exactly when the expiry is not the zero instant, the current time is not after the
  expiry, and the token, the session id and the encrypted PIN are all non-empty. The
  comparison is \<^verbatim>\<open>time.Now().After(expiration)\<close>: a session whose expiry is the current
  instant is still valid.
\<close>

theorem hasExpired_valid_iff:
  "(\<not> fst (hasExpired e p w)) =
     (\<not> IsZero (expiration p) \<and> fst (Now e (ext w)) \<le> expiration p \<and>
      authorization p \<noteq> [] \<and> sessionID p \<noteq> [] \<and> encodedPin p \<noteq> [])"
  by (auto simp: hasExpired_def callNow_def After_def split: prod.splits)

theorem hasExpired_valid_iff_witness:
  "\<not> fst (hasExpired simEnv boundarySession (simWorld 0)) \<and>
   fst (hasExpired simEnv (boundarySession\<lparr>sessionID := []\<rparr>) (simWorld 0))"
  using hasExpired_valid_iff [of simEnv boundarySession "simWorld 0"]
    hasExpired_valid_iff [of simEnv "boundarySession\<lparr>sessionID := []\<rparr>" "simWorld 0"]
  by (simp add: simEnv_def boundarySession_def simWorld_def IsZero_def timeUnix_def int64_def
      unixToInternal_def)

text \<open>
  Claim C3 as stated asks for an expiry strictly in the future. At the session
  \<open>boundarySession\<close>, whose expiry is the current instant, the session is valid although
  the expiry is not strictly later than the clock.
\<close>

theorem hasExpired_strict_counterexample:
  "\<not> ((\<not> fst (hasExpired simEnv boundarySession (simWorld 0))) =
       (\<not> IsZero (expiration boundarySession) \<and>
        fst (Now simEnv (ext (simWorld 0))) < expiration boundarySession \<and>
        authorization boundarySession \<noteq> [] \<and> sessionID boundarySession \<noteq> [] \<and>
        encodedPin boundarySession \<noteq> []))"
  by (simp add: hasExpired_def callNow_def After_def simEnv_def boundarySession_def
      simWorld_def IsZero_def timeUnix_def int64_def unixToInternal_def)

subsection \<open>The bank check\<close>

lemma rangeBanks_nonempty: "keys \<noteq> [] \<Longrightarrow> rangeBanks keys bankCode"
  by (cases keys) simp_all

lemma persist_not_bank: "persist e k r w = (Some ErrBankNotSupportedOnUSSD, w') \<Longrightarrow> False"
  by (simp add: persist_def Let_def split: prod.splits option.splits)

lemma login_not_bank: "login e r w = (Some ErrBankNotSupportedOnUSSD, r', w') \<Longrightarrow> False"
  by (auto simp add: login_def Let_def
      split: prod.splits option.splits sum.splits body.splits if_splits
      dest: persist_not_bank)

lemma ensure_not_bank:
  "ensureUserIsAuthenticated e r w = (Some ErrBankNotSupportedOnUSSD, r', w') \<Longrightarrow> False"
  by (auto simp add: ensureUserIsAuthenticated_def split: prod.splits bool.splits
      dest: login_not_bank)

lemma newRequest_not_bank: "newRequest e r m u b = Inl ErrBankNotSupportedOnUSSD \<Longrightarrow> False"
  by (simp add: newRequest_def split: option.splits)

text \<open>
  Claim C10. \<^verbatim>\<open>IsBankSupportedOnUSSD\<close> returns true for every bank code, in whatever
  order the keys of the (non-empty) table of supported banks are visited, because the
  comparison in the loop is between the key and itself. So \<^verbatim>\<open>GenerateUSSD\<close> never
  returns \<^verbatim>\<open>ErrBankNotSupportedOnUSSD\<close>.
\<close>

theorem IsBankSupportedOnUSSD_always:
  "IsBankSupportedOnUSSD bankCode \<and>
   (\<forall>keys. set keys = set (map fst BanksSupportedOnUssd) \<longrightarrow> rangeBanks keys bankCode) \<and>
   fst (GenerateUSSD e r w reference amount bankCode) \<noteq> Inl ErrBankNotSupportedOnUSSD"
proof -
  have a: "IsBankSupportedOnUSSD bankCode"
    by (simp add: IsBankSupportedOnUSSD_def BanksSupportedOnUssd_def)
  have b: "rangeBanks keys bankCode" if "set keys = set (map fst BanksSupportedOnUssd)" for keys
  proof -
    have "''057'' \<in> set (map fst BanksSupportedOnUssd)"
      by (simp add: BanksSupportedOnUssd_def)
    then have "''057'' \<in> set keys" using that by simp
    then have "keys \<noteq> []" by auto
    then show ?thesis by (rule rangeBanks_nonempty)
  qed
  have c: "fst (GenerateUSSD e r w reference amount bankCode) \<noteq> Inl ErrBankNotSupportedOnUSSD"
    using a
    by (auto simp: GenerateUSSD_def newPostRequest_def toErrorResponse_def
        split: prod.splits option.splits sum.splits
        dest: ensure_not_bank newRequest_not_bank)
  from a b c show ?thesis by blast
qed

theorem IsBankSupportedOnUSSD_always_witness:
  "IsBankSupportedOnUSSD ''999'' \<and>
   set (rev (map fst BanksSupportedOnUssd)) = set (map fst BanksSupportedOnUssd) \<and>
   rangeBanks (rev (map fst BanksSupportedOnUssd)) ''999'' \<and>
   fst (GenerateUSSD simEnv simClient (simWorld 0) ''ref'' 0 ''999'')
     \<noteq> Inl ErrBankNotSupportedOnUSSD"
  using IsBankSupportedOnUSSD_always [of "''999''" simEnv simClient "simWorld 0" "''ref''" 0]
  by simp

subsection \<open>Cache keys\<close>

lemma hexDigit_inj: "a < 16 \<Longrightarrow> b < 16 \<Longrightarrow> hexDigit a = hexDigit b \<Longrightarrow> a = b"
proof -
  assume a: "a < 16" and b: "b < 16" and eq: "hexDigit a = hexDigit b"
  have d: "distinct ''0123456789abcdef''" by simp
  have l: "length ''0123456789abcdef'' = 16" by simp
  from eq have "''0123456789abcdef'' ! a = ''0123456789abcdef'' ! b"
    by (simp only: hexDigit_def)
  with d a b l show "a = b"
    by (simp only: nth_eq_iff_index_eq)
qed

lemma hexDigit_no_dash: "a < 16 \<Longrightarrow> hexDigit a \<noteq> CHR ''-''"
proof -
  assume a: "a < 16"
  have "''0123456789abcdef'' ! a \<in> set ''0123456789abcdef''"
    by (rule nth_mem) (use a in simp)
  moreover have "CHR ''-'' \<notin> set ''0123456789abcdef''" by simp
  ultimately show ?thesis unfolding hexDigit_def by metis
qed

lemma of_char_bound: "(of_char c :: nat) < 256"
  by (metis of_char_mod_256 mod_less_divisor zero_less_numeral)

lemma hexByte_inj: "hexByte c = hexByte d \<Longrightarrow> c = d"
proof -
  assume eq: "hexByte c = hexByte d"
  let ?m = "of_char c :: nat" and ?n = "of_char d :: nat"
  have bm: "?m div 16 < 16" "?m mod 16 < 16" using of_char_bound[of c] by arith+
  have bn: "?n div 16 < 16" "?n mod 16 < 16" using of_char_bound[of d] by arith+
  from eq have hi: "hexDigit (?m div 16) = hexDigit (?n div 16)"
    and lo: "hexDigit (?m mod 16) = hexDigit (?n mod 16)"
    by (simp_all add: hexByte_def)
  have "?m div 16 = ?n div 16" by (rule hexDigit_inj [OF bm(1) bn(1) hi])
  moreover have "?m mod 16 = ?n mod 16" by (rule hexDigit_inj [OF bm(2) bn(2) lo])
  ultimately have "?m = ?n" by (metis div_mult_mod_eq)
  then show "c = d" by simp
qed

lemma hex_Cons: "hex (c # cs) = hexDigit (of_char c div 16) # hexDigit (of_char c mod 16) # hex cs"
  by (simp add: hex_def hexByte_def)

lemma hex_Nil: "hex [] = []"
  by (simp add: hex_def)

lemma hex_inj: "hex xs = hex ys \<Longrightarrow> xs = ys"
proof (induction xs arbitrary: ys)
  case Nil
  then show ?case by (cases ys) (simp_all add: hex_Nil hex_Cons)
next
  case (Cons x xs)
  show ?case
  proof (cases ys)
    case Nil
    with Cons.prems show ?thesis by (simp add: hex_Nil hex_Cons)
  next
    case (Cons y ys')
    with Cons.prems have "hexByte x = hexByte y" and "hex xs = hex ys'"
      by (simp_all add: hex_Cons hexByte_def)
    then show ?thesis using Cons.IH Cons by (auto dest: hexByte_inj)
  qed
qed

lemma hex_no_dash: "CHR ''-'' \<notin> set (hex xs)"
proof (induction xs)
  case Nil
  show ?case by (simp add: hex_Nil)
next
  case (Cons x xs)
  have b: "(of_char x :: nat) div 16 < 16" "(of_char x :: nat) mod 16 < 16"
    using of_char_bound[of x] by arith+
  have "hexDigit (of_char x div 16) \<noteq> CHR ''-''" "hexDigit (of_char x mod 16) \<noteq> CHR ''-''"
    by (rule hexDigit_no_dash [OF b(1)], rule hexDigit_no_dash [OF b(2)])
  then show ?case using Cons by (auto simp add: hex_Cons)
qed

lemma key_base: "CHR ''-'' \<notin> set b \<Longrightarrow> takeWhile (\<lambda>c. c \<noteq> CHR ''-'') (b @ CHR ''-'' # s) = b"
  by (induction b) auto

lemma slash_eq:
  assumes "b @ CHR ''/'' # s = b' @ CHR ''/'' # s'" "CHR ''/'' \<notin> set b" "CHR ''/'' \<notin> set b'"
  shows "b = b' \<and> s = s'"
proof -
  have t: "takeWhile (\<lambda>c. c \<noteq> CHR ''/'') (x @ CHR ''/'' # y) = x" if "CHR ''/'' \<notin> set x" for x y
    using that by (induction x) auto
  have "b = takeWhile (\<lambda>c. c \<noteq> CHR ''/'') (b @ CHR ''/'' # s)"
    using assms(2) by (simp add: t)
  also have "\<dots> = b'" using assms(1,3) by (simp add: t)
  finally show ?thesis using assms(1) by simp
qed

lemma key_eq:
  assumes "CHR ''-'' \<notin> set b" "CHR ''-'' \<notin> set b'" "b @ CHR ''-'' # s = b' @ CHR ''-'' # s'"
  shows "b = b' \<and> s = s'"
proof -
  have "b = takeWhile (\<lambda>c. c \<noteq> CHR ''-'') (b @ CHR ''-'' # s)"
    using assms(1) by (simp add: key_base)
  also have "\<dots> = b'" using assms(2,3) by (simp add: key_base)
  finally show ?thesis using assms(3) by simp
qed


lemma keys_share:
  assumes "k \<in> keysOf (makeAuthCacheKeys r)" "k \<in> keysOf (makeAuthCacheKeys r')"
  shows "cacheKeyInput r = cacheKeyInput r'"
proof -
  let ?b = "hex (md5Sum (cacheKeyInput r))" and ?b' = "hex (md5Sum (cacheKeyInput r'))"
  from assms(1) obtain s where s: "k = ?b @ CHR ''-'' # s"
    by (auto simp: keysOf_def makeAuthCacheKeys_def Let_def)
  from assms(2) obtain s' where s': "k = ?b' @ CHR ''-'' # s'"
    by (auto simp: keysOf_def makeAuthCacheKeys_def Let_def)
  from s s' have "?b = ?b'"
    using key_eq [OF hex_no_dash hex_no_dash, of "md5Sum (cacheKeyInput r)" s "md5Sum (cacheKeyInput r')" s']
    by simp
  then have "md5Sum (cacheKeyInput r) = md5Sum (cacheKeyInput r')" by (rule hex_inj)
  then show ?thesis by (simp add: md5Sum_def)
qed

lemma keys_distinct:
  "distinct [authorizationKey (makeAuthCacheKeys r), sessionIDKey (makeAuthCacheKeys r),
     encodedPinKey (makeAuthCacheKeys r), expirationKey (makeAuthCacheKeys r)]"
  by (simp add: makeAuthCacheKeys_def Let_def)

lemma input_split:
  assumes "CHR ''/'' \<notin> set u" "CHR ''/'' \<notin> set u'"
    and "b @ ''/'' @ baseLoginUrl @ ''/'' @ u = b' @ ''/'' @ baseLoginUrl @ ''/'' @ u'"
  shows "b = b' \<and> u = u'"
proof -
  let ?m = "''/'' @ baseLoginUrl"
  have "rev u @ CHR ''/'' # rev (b @ ?m) = rev u' @ CHR ''/'' # rev (b' @ ?m)"
    using arg_cong [OF assms(3), of rev] by simp
  moreover have "CHR ''/'' \<notin> set (rev u)" "CHR ''/'' \<notin> set (rev u')"
    using assms(1,2) by simp_all
  ultimately have "rev u = rev u' \<and> rev (b @ ?m) = rev (b' @ ?m)"
    by (rule slash_eq)
  then show ?thesis by simp
qed

text \<open>
  Claim C4, as the code has it. The base of the keys is the hexadecimal print of the
  formatted string \<^verbatim>\<open>baseURL/loginPath/userName\<close> (followed by a constant), where the
  login path is the constant \<^verbatim>\<open>/rc/rest/agent/login\<close>. So two clients share a cache
  key exactly when their formatted strings are equal; in particular two different
  (baseURL, userName) pairs whose user names contain no \<^verbatim>\<open>/\<close> never share a key.
\<close>

theorem cache_keys_collide_iff:
  "((keysOf (makeAuthCacheKeys r) \<inter> keysOf (makeAuthCacheKeys r') \<noteq> {}) =
      (cacheKeyInput r = cacheKeyInput r')) \<and>
   (CHR ''/'' \<notin> set (UserName (account r)) \<and> CHR ''/'' \<notin> set (UserName (account r')) \<and>
    (baseURL r, UserName (account r)) \<noteq> (baseURL r', UserName (account r')) \<longrightarrow>
      keysOf (makeAuthCacheKeys r) \<inter> keysOf (makeAuthCacheKeys r') = {})"
proof -
  let ?K = "keysOf (makeAuthCacheKeys r)" and ?K' = "keysOf (makeAuthCacheKeys r')"
  have same: "?K \<inter> ?K' \<noteq> {}" if "cacheKeyInput r = cacheKeyInput r'"
  proof -
    have "makeAuthCacheKeys r = makeAuthCacheKeys r'"
      using that by (simp add: makeAuthCacheKeys_def)
    then show ?thesis by (simp add: keysOf_def)
  qed
  have share: "cacheKeyInput r = cacheKeyInput r'" if "?K \<inter> ?K' \<noteq> {}"
  proof -
    from that obtain k where "k \<in> ?K" and "k \<in> ?K'" by blast
    then show ?thesis by (rule keys_share)
  qed
  have split: "baseURL r = baseURL r' \<and> UserName (account r) = UserName (account r')"
    if "CHR ''/'' \<notin> set (UserName (account r))" "CHR ''/'' \<notin> set (UserName (account r'))"
      "cacheKeyInput r = cacheKeyInput r'"
    using that(3) unfolding cacheKeyInput_def by (rule input_split [OF that(1,2)])
  have first: "(?K \<inter> ?K' \<noteq> {}) = (cacheKeyInput r = cacheKeyInput r')"
    using same share by (rule iffI [rotated])
  have second: "?K \<inter> ?K' = {}"
    if h: "CHR ''/'' \<notin> set (UserName (account r)) \<and> CHR ''/'' \<notin> set (UserName (account r')) \<and>
      (baseURL r, UserName (account r)) \<noteq> (baseURL r', UserName (account r'))"
  proof (rule ccontr)
    assume "?K \<inter> ?K' \<noteq> {}"
    then have "cacheKeyInput r = cacheKeyInput r'" by (rule share)
    moreover from h have "CHR ''/'' \<notin> set (UserName (account r))"
      and "CHR ''/'' \<notin> set (UserName (account r'))" by (rule conjunct1, rule conjunct2 [THEN conjunct1])
    ultimately have "baseURL r = baseURL r' \<and> UserName (account r) = UserName (account r')"
      by (rule split [rotated 2])
    with h show False by simp
  qed
  from first second show ?thesis by (intro conjI impI)
qed

theorem cache_keys_collide_iff_witness:
  "CHR ''/'' \<notin> set (UserName (account simClient)) \<and>
   CHR ''/'' \<notin> set (UserName (account otherClient)) \<and>
   (baseURL simClient, UserName (account simClient)) \<noteq>
     (baseURL otherClient, UserName (account otherClient)) \<and>
   keysOf (makeAuthCacheKeys simClient) \<inter> keysOf (makeAuthCacheKeys otherClient) = {}"
proof -
  have h: "CHR ''/'' \<notin> set (UserName (account simClient)) \<and>
    CHR ''/'' \<notin> set (UserName (account otherClient)) \<and>
    (baseURL simClient, UserName (account simClient)) \<noteq>
      (baseURL otherClient, UserName (account otherClient))"
    by (simp add: simClient_def otherClient_def simAccount_def)
  from cache_keys_collide_iff [of simClient otherClient, THEN conjunct2, rule_format, OF h]
  have "keysOf (makeAuthCacheKeys simClient) \<inter> keysOf (makeAuthCacheKeys otherClient) = {}" .
  with h show ?thesis by blast
qed

text \<open>
  Claim C4 as stated fails: the clients \<open>collideA\<close> and \<open>collideB\<close> differ in base URL
  and in user name, and derive the same four keys, because the three parts are joined
  with the separator \<^verbatim>\<open>/\<close>, which the parts themselves may contain.
\<close>

theorem cache_keys_collision_counterexample:
  "(baseURL collideA, baseLoginUrl, UserName (account collideA)) \<noteq>
     (baseURL collideB, baseLoginUrl, UserName (account collideB)) \<and>
   makeAuthCacheKeys collideA = makeAuthCacheKeys collideB"
proof -
  have "cacheKeyInput collideA = cacheKeyInput collideB"
    by (simp add: cacheKeyInput_def collideA_def collideB_def baseLoginUrl_def)
  then have "makeAuthCacheKeys collideA = makeAuthCacheKeys collideB"
    by (simp add: makeAuthCacheKeys_def)
  moreover have "baseURL collideA \<noteq> baseURL collideB"
    by (simp add: collideA_def collideB_def)
  ultimately show ?thesis by simp
qed

subsection \<open>Hydration, persistence and login, step by step\<close>

lemma hydrate_eq:
  assumes "GetString e (authorizationKey k) (ext w) = ((v1, e1), x1)"
    and "GetString e (sessionIDKey k) x1 = ((v2, e2), x2)"
    and "GetString e (encodedPinKey k) x2 = ((v3, e3), x3)"
    and "GetInt e (expirationKey k) x3 = ((v4, e4), x4)"
  shows "hydrate e k a w =
     (\<lparr>authorization = (if e1 = None \<and> v1 \<noteq> [] then v1 else authorization a),
       sessionID = (if e2 = None \<and> v2 \<noteq> [] then v2 else sessionID a),
       expiration = (if e4 = None \<and> 0 < v4 then timeUnix v4 else expiration a),
       encodedPin = (if e3 = None \<and> v3 \<noteq> [] then v3 else encodedPin a)\<rparr>,
      \<lparr>ext = x4, trace = trace w @ hydrationReads k\<rparr>)"
  using assms
  by (simp add: hydrate_def callGetString_def callGetInt_def step_def hydrationReads_def Let_def)

lemma persist_eq:
  assumes "SetStringFor e (authorizationKey k) (authorization (access r)) (SessionLength (account r)) (ext w) = (e1, y1)"
    and "SetStringFor e (sessionIDKey k) (sessionID (access r)) (SessionLength (account r)) y1 = (e2, y2)"
    and "SetStringFor e (encodedPinKey k) (encodedPin (access r)) (SessionLength (account r)) y2 = (e3, y3)"
    and "SetIntFor e (expirationKey k) (Unix (expiration (access r))) (SessionLength (account r)) y3 = (e4, y4)"
  shows "persist e k r w =
    (if e1 \<noteq> None then (map_option External e1, \<lparr>ext = y1, trace = trace w @ take 1 (persistWrites k r)\<rparr>)
     else if e2 \<noteq> None then (map_option External e2, \<lparr>ext = y2, trace = trace w @ take 2 (persistWrites k r)\<rparr>)
     else if e3 \<noteq> None then (map_option External e3, \<lparr>ext = y3, trace = trace w @ take 3 (persistWrites k r)\<rparr>)
     else (map_option External e4, \<lparr>ext = y4, trace = trace w @ persistWrites k r\<rparr>))"
  using assms
  by (auto simp add: persist_def callSetStringFor_def callSetIntFor_def step_def persistWrites_def Let_def
      split: option.splits)

lemma login_persist_eq:
  assumes "hydrate e (makeAuthCacheKeys r) (access r) w = (a, w1)"
    and "hasExpired e a w1 = (True, w2)"
    and "PostForm e (baseURL r @ baseLoginUrl) (loginPayload e r) (ext w2) = (Inr res, x3)"
    and "Body res = Content b"
    and "successCode (StatusCode res)"
    and "DesEncrypt e (Pin (account r)) (Header res ''X-SessionID'') = (h, None)"
    and "Now e x3 = (t, x4)"
    and "r2 = r\<lparr>access := \<lparr>authorization = Header res ''Authorization'',
                            sessionID = Header res ''X-SessionID'',
                            expiration = t + SessionLength (account r),
                            encodedPin = h\<rparr>\<rparr>"
    and "SetStringFor e (authorizationKey (makeAuthCacheKeys r)) (Header res ''Authorization'')
           (SessionLength (account r)) x4 = (e1, y1)"
    and "SetStringFor e (sessionIDKey (makeAuthCacheKeys r)) (Header res ''X-SessionID'')
           (SessionLength (account r)) y1 = (e2, y2)"
    and "SetStringFor e (encodedPinKey (makeAuthCacheKeys r)) h (SessionLength (account r)) y2 =
           (e3, y3)"
    and "SetIntFor e (expirationKey (makeAuthCacheKeys r)) (Unix (t + SessionLength (account r)))
           (SessionLength (account r)) y3 = (e4, y4)"
    and "tr = trace w2 @ [EvPostForm (baseURL r @ baseLoginUrl) (loginPayload e r)]"
    and "ws = persistWrites (makeAuthCacheKeys r) r2"
  shows "login e r w =
    (if e1 \<noteq> None then (map_option External e1, r2, \<lparr>ext = y1, trace = tr @ take 1 ws\<rparr>)
     else if e2 \<noteq> None then (map_option External e2, r2, \<lparr>ext = y2, trace = tr @ take 2 ws\<rparr>)
     else if e3 \<noteq> None then (map_option External e3, r2, \<lparr>ext = y3, trace = tr @ take 3 ws\<rparr>)
     else (map_option External e4, r2, \<lparr>ext = y4, trace = tr @ ws\<rparr>))"
proof -
  let ?k = "makeAuthCacheKeys r"
  let ?w4 = "\<lparr>ext = x4, trace = tr\<rparr>"
  have acc: "access r2 = \<lparr>authorization = Header res ''Authorization'',
      sessionID = Header res ''X-SessionID'', expiration = t + SessionLength (account r),
      encodedPin = h\<rparr>" and acct: "account r2 = account r"
    using assms(8) by simp_all
  have p: "persist e ?k r2 ?w4 =
    (if e1 \<noteq> None then (map_option External e1, \<lparr>ext = y1, trace = tr @ take 1 ws\<rparr>)
     else if e2 \<noteq> None then (map_option External e2, \<lparr>ext = y2, trace = tr @ take 2 ws\<rparr>)
     else if e3 \<noteq> None then (map_option External e3, \<lparr>ext = y3, trace = tr @ take 3 ws\<rparr>)
     else (map_option External e4, \<lparr>ext = y4, trace = tr @ ws\<rparr>))"
    using persist_eq [of e ?k r2 ?w4 e1 y1 e2 y2 e3 y3 e4 y4]
    by (simp add: acc acct assms(9-12) assms(14))
  have r2': "r\<lparr>access := a\<lparr>authorization := Header res ''Authorization'',
              sessionID := Header res ''X-SessionID'', encodedPin := h,
              expiration := t + SessionLength (account r)\<rparr>\<rparr> = r2"
    unfolding assms(8) by simp
  have "login e r w = (case persist e ?k r2 ?w4 of (res, w5) \<Rightarrow> (res, r2, w5))"
    using assms(1-7) r2'
    by (simp add: login_def Let_def callPostForm_def callNow_def step_def setPin_def assms(13))
  then show ?thesis unfolding p by (simp split: if_splits)
qed

lemma sim_fields:
  "SetStringFor simEnv = simSetStringFor" "SetIntFor simEnv = simSetIntFor"
  "GetString simEnv = simGetString" "GetInt simEnv = simGetInt"
  "PostForm simEnv = simPostForm" "Do simEnv = simDo" "Now simEnv x = (clock x, x)"
  "DesEncrypt simEnv pin key = (hex (pin @ key), None)"
  "formatSeconds simEnv = simFormatSeconds"
  "buildUrl simEnv = simBuildUrl" "checkRequest simEnv = simCheckRequest"
  "Marshal simEnv = simMarshal"
  "NewBalanceResponse simEnv = simNewBalanceResponse"
  "NewUssdTransactionResponse simEnv = simNewUssdTransactionResponse"
  "NewWalletTransactions simEnv = simNewWalletTransactions"
  by (simp_all add: simEnv_def)

lemma sim_sessionLength: "simFormatSeconds 3600000000000 = ''3600''"
  by (simp add: simFormatSeconds_def wholeSeconds_def showInt_def)

lemma keys_neq:
  "authorizationKey (makeAuthCacheKeys r) \<noteq> sessionIDKey (makeAuthCacheKeys r)"
  "authorizationKey (makeAuthCacheKeys r) \<noteq> encodedPinKey (makeAuthCacheKeys r)"
  "authorizationKey (makeAuthCacheKeys r) \<noteq> expirationKey (makeAuthCacheKeys r)"
  "sessionIDKey (makeAuthCacheKeys r) \<noteq> authorizationKey (makeAuthCacheKeys r)"
  "sessionIDKey (makeAuthCacheKeys r) \<noteq> encodedPinKey (makeAuthCacheKeys r)"
  "sessionIDKey (makeAuthCacheKeys r) \<noteq> expirationKey (makeAuthCacheKeys r)"
  "encodedPinKey (makeAuthCacheKeys r) \<noteq> authorizationKey (makeAuthCacheKeys r)"
  "encodedPinKey (makeAuthCacheKeys r) \<noteq> sessionIDKey (makeAuthCacheKeys r)"
  "encodedPinKey (makeAuthCacheKeys r) \<noteq> expirationKey (makeAuthCacheKeys r)"
  "expirationKey (makeAuthCacheKeys r) \<noteq> authorizationKey (makeAuthCacheKeys r)"
  "expirationKey (makeAuthCacheKeys r) \<noteq> sessionIDKey (makeAuthCacheKeys r)"
  "expirationKey (makeAuthCacheKeys r) \<noteq> encodedPinKey (makeAuthCacheKeys r)"
  using keys_distinct [of r] by auto

subsection \<open>The trace only grows\<close>

lemma hasExpired_trace: "trace (snd (hasExpired e p w)) = trace w"
  by (simp add: hasExpired_def callNow_def split: prod.splits)

lemma hasExpired_trace': "hasExpired e p w = (b, w') \<Longrightarrow> trace w' = trace w"
  using hasExpired_trace [of e p w] by simp

lemma hydrate_trace: "trace (snd (hydrate e k a w)) = trace w @ hydrationReads k"
  by (simp add: hydrate_def callGetString_def callGetInt_def step_def hydrationReads_def Let_def
      split: prod.splits)

lemma hydrate_trace': "hydrate e k a w = (a', w') \<Longrightarrow> trace w' = trace w @ hydrationReads k"
  using hydrate_trace [of e k a w] by simp

lemma persist_trace: "persist e k r w = (res, w') \<Longrightarrow> prefix (trace w) (trace w')"
  by (auto simp add: persist_def callSetStringFor_def callSetIntFor_def step_def Let_def
      split: prod.splits option.splits)

lemma makeAuthCacheKeys_access [simp]:
  "makeAuthCacheKeys (r\<lparr>access := a\<rparr>) = makeAuthCacheKeys r"
  by (simp add: makeAuthCacheKeys_def cacheKeyInput_def)

lemma login_valid:
  assumes "hydrate e (makeAuthCacheKeys r) (access r) w = (a, w1)"
    and "\<not> fst (hasExpired e a w1)"
  shows "login e r w = (None, r\<lparr>access := a\<rparr>, snd (hasExpired e a w1))"
proof -
  obtain b w2 where x: "hasExpired e a w1 = (b, w2)" by (cases "hasExpired e a w1")
  with assms(2) have "\<not> b" by simp
  with assms(1) x show ?thesis by (simp add: login_def Let_def)
qed

lemma login_after:
  assumes "hydrate e (makeAuthCacheKeys r) (access r) w = (a, w1)"
  shows "prefix (trace w1) (trace (snd (snd (login e r w))))"
proof -
  obtain b w2 where x: "hasExpired e a w1 = (b, w2)" by (cases "hasExpired e a w1")
  have t2: "trace w2 = trace w1" using x by (rule hasExpired_trace')
  show ?thesis
  proof (cases b)
    case False
    with assms x t2 show ?thesis by (simp add: login_def Let_def)
  next
    case True
    with assms x t2 show ?thesis
      by (auto simp add: login_def Let_def callPostForm_def callNow_def step_def
          split: prod.splits sum.splits body.splits option.splits
          dest!: persist_trace dest: append_prefixD)
  qed
qed

lemma login_trace:
  "prefix (trace w @ hydrationReads (makeAuthCacheKeys r)) (trace (snd (snd (login e r w))))"
proof -
  obtain a w1 where h: "hydrate e (makeAuthCacheKeys r) (access r) w = (a, w1)"
    by (cases "hydrate e (makeAuthCacheKeys r) (access r) w")
  from login_after [OF h] hydrate_trace' [OF h] show ?thesis by simp
qed

lemma ensure_expired_trace:
  assumes "fst (hasSessionExpired e r w)"
  shows "prefix (trace w @ hydrationReads (makeAuthCacheKeys r))
           (trace (snd (snd (ensureUserIsAuthenticated e r w))))"
proof -
  obtain b w0 where x: "hasSessionExpired e r w = (b, w0)" by (cases "hasSessionExpired e r w")
  with assms have b by simp
  have "trace w0 = trace w" using x unfolding hasSessionExpired_def by (rule hasExpired_trace')
  with login_trace [of w0 r e] x \<open>b\<close> show ?thesis
    by (simp add: ensureUserIsAuthenticated_def)
qed

lemma ensure_valid_trace:
  assumes "\<not> fst (hasSessionExpired e r w)"
  shows "trace (snd (snd (ensureUserIsAuthenticated e r w))) = trace w"
proof -
  obtain b w0 where x: "hasSessionExpired e r w = (b, w0)" by (cases "hasSessionExpired e r w")
  with assms have "\<not> b" by simp
  have "trace w0 = trace w" using x unfolding hasSessionExpired_def by (rule hasExpired_trace')
  with x \<open>\<not> b\<close> show ?thesis
    by (simp add: ensureUserIsAuthenticated_def)
qed

lemma doRequest_trace: "trace (snd (doRequest e q w)) = trace w @ [EvDo q]"
  by (simp add: doRequest_def callDo_def step_def split: prod.splits sum.splits body.splits)

lemma doRequest_trace': "doRequest e q w = (res, w') \<Longrightarrow> trace w' = trace w @ [EvDo q]"
  using doRequest_trace [of e q w] by simp

lemma ensure_prefix: "prefix (trace w) (trace (snd (snd (ensureUserIsAuthenticated e r w))))"
proof (cases "fst (hasSessionExpired e r w)")
  case True
  from ensure_expired_trace [OF True] show ?thesis by (rule append_prefixD)
next
  case False
  from ensure_valid_trace [OF False] show ?thesis by simp
qed

lemma BalanceEnquiry_step:
  assumes "BalanceEnquiry (Suc fuel) e r w = Some out"
    and "ensureUserIsAuthenticated e r w = (err, r1, w1)"
  shows "snd (snd out) = w1 \<or>
    (\<exists>q res w2. doRequest e q w1 = (res, w2) \<and>
       (snd (snd out) = w2 \<or>
        BalanceEnquiry fuel e (r1\<lparr>access := reset (access r1)\<rparr>) w2 = Some out))"
  using assms
  by (fastforce split: option.splits sum.splits prod.splits if_splits)

lemma BalanceEnquiry_after_ensure:
  "BalanceEnquiry fuel e r w = Some out \<Longrightarrow>
   prefix (trace (snd (snd (ensureUserIsAuthenticated e r w)))) (trace (snd (snd out)))"
proof (induction fuel arbitrary: r w)
  case 0
  then show ?case by simp
next
  case (Suc fuel)
  obtain err r1 w1 where en: "ensureUserIsAuthenticated e r w = (err, r1, w1)"
    by (cases "ensureUserIsAuthenticated e r w")
  from BalanceEnquiry_step [OF Suc.prems en]
  consider "snd (snd out) = w1"
    | q res w2 where "doRequest e q w1 = (res, w2)" "snd (snd out) = w2"
    | q res w2 where "doRequest e q w1 = (res, w2)"
        "BalanceEnquiry fuel e (r1\<lparr>access := reset (access r1)\<rparr>) w2 = Some out"
    by blast
  then show ?case
  proof cases
    case 1
    then show ?thesis using en by simp
  next
    case 2
    then show ?thesis using en doRequest_trace' [OF 2(1)] by simp
  next
    case 3
    let ?r = "r1\<lparr>access := reset (access r1)\<rparr>"
    have "prefix (trace w1) (trace w2)" using doRequest_trace' [OF 3(1)] by simp
    also have "prefix (trace w2) (trace (snd (snd (ensureUserIsAuthenticated e ?r w2))))"
      by (rule ensure_prefix)
    also have "prefix \<dots> (trace (snd (snd out)))" by (rule Suc.IH [OF 3(2)])
    finally show ?thesis using en by simp
  qed
qed

lemma FetchTransaction_step:
  assumes "FetchTransaction (Suc fuel) e r w opts = Some out"
    and "ensureUserIsAuthenticated e r w = (err, r1, w1)"
  shows "snd (snd out) = w1 \<or>
    (\<exists>q res w2. doRequest e q w1 = (res, w2) \<and>
       (snd (snd out) = w2 \<or>
        FetchTransaction fuel e (r1\<lparr>access := reset (access r1)\<rparr>) w2 opts = Some out))"
  using assms
  by (fastforce simp: Let_def split: option.splits sum.splits prod.splits if_splits)

lemma FetchTransaction_after_ensure:
  "FetchTransaction fuel e r w opts = Some out \<Longrightarrow>
   prefix (trace (snd (snd (ensureUserIsAuthenticated e r w)))) (trace (snd (snd out)))"
proof (induction fuel arbitrary: r w)
  case 0
  then show ?case by simp
next
  case (Suc fuel)
  obtain err r1 w1 where en: "ensureUserIsAuthenticated e r w = (err, r1, w1)"
    by (cases "ensureUserIsAuthenticated e r w")
  from FetchTransaction_step [OF Suc.prems en]
  consider "snd (snd out) = w1"
    | q res w2 where "doRequest e q w1 = (res, w2)" "snd (snd out) = w2"
    | q res w2 where "doRequest e q w1 = (res, w2)"
        "FetchTransaction fuel e (r1\<lparr>access := reset (access r1)\<rparr>) w2 opts = Some out"
    by blast
  then show ?case
  proof cases
    case 1
    then show ?thesis using en by simp
  next
    case 2
    then show ?thesis using en doRequest_trace' [OF 2(1)] by simp
  next
    case 3
    let ?r = "r1\<lparr>access := reset (access r1)\<rparr>"
    have "prefix (trace w1) (trace w2)" using doRequest_trace' [OF 3(1)] by simp
    also have "prefix (trace w2) (trace (snd (snd (ensureUserIsAuthenticated e ?r w2))))"
      by (rule ensure_prefix)
    also have "prefix \<dots> (trace (snd (snd out)))" by (rule Suc.IH [OF 3(2)])
    finally show ?thesis using en by simp
  qed
qed

lemma GenerateUSSD_after_ensure:
  "prefix (trace (snd (snd (ensureUserIsAuthenticated e r w))))
     (trace (snd (snd (GenerateUSSD e r w reference amount bankCode))))"
proof -
  have a: "IsBankSupportedOnUSSD bankCode"
    by (simp add: IsBankSupportedOnUSSD_def BanksSupportedOnUssd_def)
  obtain err r1 w1 where en: "ensureUserIsAuthenticated e r w = (err, r1, w1)"
    by (cases "ensureUserIsAuthenticated e r w")
  show ?thesis
    using a en
    by (auto simp: GenerateUSSD_def split: option.splits sum.splits prod.splits
        dest!: doRequest_trace')
qed

lemma FetchUSSDTransaction_after_ensure:
  "prefix (trace (snd (snd (ensureUserIsAuthenticated e r w))))
     (trace (snd (snd (FetchUSSDTransaction e r w reference))))"
proof -
  obtain err r1 w1 where en: "ensureUserIsAuthenticated e r w = (err, r1, w1)"
    by (cases "ensureUserIsAuthenticated e r w")
  show ?thesis
    using en
    by (auto simp: FetchUSSDTransaction_def split: option.splits sum.splits prod.splits
        dest!: doRequest_trace')
qed

subsection \<open>Running the test double\<close>

lemma simKeys_neq:
  "authorizationKey simKeys \<noteq> sessionIDKey simKeys"
  "authorizationKey simKeys \<noteq> encodedPinKey simKeys"
  "authorizationKey simKeys \<noteq> expirationKey simKeys"
  "sessionIDKey simKeys \<noteq> authorizationKey simKeys"
  "sessionIDKey simKeys \<noteq> encodedPinKey simKeys"
  "sessionIDKey simKeys \<noteq> expirationKey simKeys"
  "encodedPinKey simKeys \<noteq> authorizationKey simKeys"
  "encodedPinKey simKeys \<noteq> sessionIDKey simKeys"
  "encodedPinKey simKeys \<noteq> expirationKey simKeys"
  "expirationKey simKeys \<noteq> authorizationKey simKeys"
  "expirationKey simKeys \<noteq> sessionIDKey simKeys"
  "expirationKey simKeys \<noteq> encodedPinKey simKeys"
  unfolding simKeys_def by (rule keys_neq)+

lemma hex_pin: "hex ''12341234'' = ''3132333431323334''"
  by (simp add: hex_def hexByte_def hexDigit_def)

lemma sim_hydrate_logged:
  assumes "table x = loggedTable"
  shows "hydrate simEnv simKeys a \<lparr>ext = x, trace = tr\<rparr> =
    (loggedSession, \<lparr>ext = x, trace = tr @ hydrationReads simKeys\<rparr>)"
  using hydrate_eq [of simEnv simKeys "\<lparr>ext = x, trace = tr\<rparr>"
      "''Bearer Token''" None x "''1234''" None x "''3132333431323334''" None x
      1700003600 None x a] assms
  by (simp add: sim_fields simGetString_def simGetInt_def loggedTable_def simKeys_neq
      loggedSession_def)

lemma sim_hasExpired_logged:
  assumes "clock x = timeUnix 1700000000"
  shows "hasExpired simEnv loggedSession \<lparr>ext = x, trace = tr\<rparr> =
    (False, \<lparr>ext = x, trace = tr\<rparr>)"
  using assms
  by (simp add: hasExpired_def loggedSession_def IsZero_def timeUnix_def int64_def unixToInternal_def
      callNow_def sim_fields After_def)

lemma sim_ensure_logged:
  assumes "table x = loggedTable" "clock x = timeUnix 1700000000"
  shows "ensureUserIsAuthenticated simEnv simClient \<lparr>ext = x, trace = tr\<rparr> =
    (None, loggedClient, \<lparr>ext = x, trace = tr @ hydrationReads simKeys\<rparr>)"
proof -
  have k: "makeAuthCacheKeys simClient = simKeys" by (simp add: simKeys_def)
  have a: "access simClient = emptyAccess" by (simp add: simClient_def)
  have 1: "hasSessionExpired simEnv simClient \<lparr>ext = x, trace = tr\<rparr> =
      (True, \<lparr>ext = x, trace = tr\<rparr>)"
    by (simp add: hasSessionExpired_def hasExpired_def a emptyAccess_def IsZero_def)
  have 2: "hydrate simEnv (makeAuthCacheKeys simClient) (access simClient) \<lparr>ext = x, trace = tr\<rparr>
      = (loggedSession, \<lparr>ext = x, trace = tr @ hydrationReads simKeys\<rparr>)"
    unfolding k by (rule sim_hydrate_logged [OF assms(1)])
  have 3: "\<not> fst (hasExpired simEnv loggedSession \<lparr>ext = x, trace = tr @ hydrationReads simKeys\<rparr>)"
    by (simp add: sim_hasExpired_logged [OF assms(2)])
  show ?thesis
    using login_valid [OF 2 3] 1
    by (simp add: ensureUserIsAuthenticated_def sim_hasExpired_logged [OF assms(2)]
        loggedClient_def)
qed

lemma sim_ensure_fresh:
  "ensureUserIsAuthenticated simEnv simClient (simWorld n) =
     (None, loggedClient, loggedWorld n loginEvents)"
proof -
  let ?k = "makeAuthCacheKeys simClient"
  let ?x = "ext (simWorld n)"
  let ?w1 = "\<lparr>ext = ?x, trace = trace (simWorld n) @ hydrationReads ?k\<rparr>"
  let ?res = "\<lparr>StatusCode = 200, Header = simLoginHeader, Body = Content ''{}''\<rparr>"
  let ?d = "3600000000000 :: int"
  let ?h = "hex ''12341234''"
  let ?t = "timeUnix 1700000000"
  let ?y1 = "?x\<lparr>table := [(authorizationKey ?k, StoredString ''Bearer Token'')]\<rparr>"
  let ?y2 = "?x\<lparr>table := [(sessionIDKey ?k, StoredString ''1234''),
     (authorizationKey ?k, StoredString ''Bearer Token'')]\<rparr>"
  let ?y3 = "?x\<lparr>table := [(encodedPinKey ?k, StoredString ?h),
     (sessionIDKey ?k, StoredString ''1234''),
     (authorizationKey ?k, StoredString ''Bearer Token'')]\<rparr>"
  let ?y4 = "?x\<lparr>table := [(expirationKey ?k, StoredInt (Unix (?t + ?d))),
     (encodedPinKey ?k, StoredString ?h),
     (sessionIDKey ?k, StoredString ''1234''),
     (authorizationKey ?k, StoredString ''Bearer Token'')]\<rparr>"
  have a: "access simClient = emptyAccess" by (simp add: simClient_def)
  have len: "SessionLength (account simClient) = ?d"
    by (simp add: simClient_def simAccount_def)
  have h0: "hasSessionExpired simEnv simClient (simWorld n) = (True, simWorld n)"
    by (simp add: hasSessionExpired_def hasExpired_def a emptyAccess_def IsZero_def)
  have h1: "hydrate simEnv ?k (access simClient) (simWorld n) = (emptyAccess, ?w1)"
    using hydrate_eq [of simEnv ?k "simWorld n" "[]" "Some ''data not found''" ?x
        "[]" "Some ''data not found''" ?x "[]" "Some ''data not found''" ?x
        0 "Some ''data not found''" ?x emptyAccess]
    by (simp add: sim_fields simGetString_def simGetInt_def simWorld_def a emptyAccess_def)
  have h2: "hasExpired simEnv emptyAccess ?w1 = (True, ?w1)"
    by (simp add: hasExpired_def emptyAccess_def IsZero_def)
  have h3: "PostForm simEnv (baseURL simClient @ baseLoginUrl) (loginPayload simEnv simClient)
      (ext ?w1) = (Inr ?res, ?x)"
    by (simp add: sim_fields simPostForm_def)
  have h4: "Body ?res = Content ''{}''" by simp
  have h5: "successCode (StatusCode ?res)" by (simp add: successCode_def StatusOK_def)
  have h6: "DesEncrypt simEnv (Pin (account simClient)) (Header ?res ''X-SessionID'') = (?h, None)"
    by (simp add: sim_fields simClient_def simAccount_def simLoginHeader_def)
  have h7: "Now simEnv ?x = (?t, ?x)"
    by (simp add: sim_fields simWorld_def)
  have h9: "SetStringFor simEnv (authorizationKey ?k) (Header ?res ''Authorization'')
      (SessionLength (account simClient)) ?x = (None, ?y1)"
    by (simp add: sim_fields simSetStringFor_def simWorld_def simLoginHeader_def)
  have h10: "SetStringFor simEnv (sessionIDKey ?k) (Header ?res ''X-SessionID'')
      (SessionLength (account simClient)) ?y1 = (None, ?y2)"
    by (simp add: sim_fields simSetStringFor_def simWorld_def simLoginHeader_def)
  have h11: "SetStringFor simEnv (encodedPinKey ?k) ?h (SessionLength (account simClient)) ?y2 =
      (None, ?y3)"
    by (simp add: sim_fields simSetStringFor_def simWorld_def)
  have h12: "SetIntFor simEnv (expirationKey ?k)
      (Unix (?t + SessionLength (account simClient))) (SessionLength (account simClient)) ?y3 =
      (None, ?y4)"
    by (simp add: sim_fields simSetIntFor_def simWorld_def len)
  note L = login_persist_eq [OF h1 h2 h3 h4 h5 h6 h7 refl h9 h10 h11 h12 refl refl]
  have u: "Unix (timeUnix 1700003600) = 1700003600" "?t + ?d = timeUnix 1700003600"
    by (simp_all add: Unix_def timeUnix_def int64_def unixToInternal_def)
  have e: "ensureUserIsAuthenticated simEnv simClient (simWorld n) =
      login simEnv simClient (simWorld n)"
    by (simp add: ensureUserIsAuthenticated_def h0)
  show ?thesis
    unfolding e L
    by (simp add: loggedClient_def loggedSession_def loggedWorld_def loggedTable_def
        loginEvents_def simKeys_def hex_pin u len simLoginHeader_def simWorld_def
        persistWrites_def baseLoginUrl_def loginPayload_def sim_fields sim_sessionLength
        simClient_def simAccount_def)
qed

lemma sim_doRequest:
  "doRequest simEnv q \<lparr>ext = x, trace = tr\<rparr> =
    (if 0 < forbidden x
     then ((403, Some ''Forbidden'', None),
           \<lparr>ext = x\<lparr>forbidden := forbidden x - 1\<rparr>, trace = tr @ [EvDo q]\<rparr>)
     else ((200, Some (simBody (reqURL q)), None), \<lparr>ext = x, trace = tr @ [EvDo q]\<rparr>))"
  by (simp add: doRequest_def callDo_def step_def sim_fields simDo_def)

lemma sim_bodies:
  "simBody (reqURL balanceRequest) = ''{}''" "simBody (reqURL tranRequest) = ''[]''"
  "simBody (reqURL ussdRequest) = ''{}''" "simBody (reqURL fetchUssdRequest) = ''{}''"
  by (simp_all add: simBody_def balanceRequest_def tranRequest_def ussdRequest_def
      fetchUssdRequest_def)

lemma sim_decoders:
  "simNewBalanceResponse ''{}'' = Inr simBalance"
  "simNewUssdTransactionResponse ''{}'' = (simUssd, None)"
  "simNewWalletTransactions ''[]'' = Inr []"
  by (simp_all add: simNewBalanceResponse_def simNewUssdTransactionResponse_def
      simNewWalletTransactions_def)

lemma sim_urls:
  assumes "baseURL r = ''http://h''"
  shows "generateUrl simEnv r baseBalanceUrl [] = Some (reqURL balanceRequest)"
    and "generateUrl simEnv r baseTransactionsUrl [[]] = Some (reqURL tranRequest)"
    and "generateUrl simEnv r baseUssdTransaction [] = Some (reqURL ussdRequest)"
    and "generateUrl simEnv r baseFetchUssdTransaction [[(''senderRef'', ''ref'')]] =
      Some (reqURL fetchUssdRequest)"
  using assms
  by (simp_all add: generateUrl_def sim_fields simBuildUrl_def simpleUrl_def pathChar_def
      baseBalanceUrl_def baseTransactionsUrl_def baseUssdTransaction_def
      baseFetchUssdTransaction_def balanceRequest_def tranRequest_def ussdRequest_def
      fetchUssdRequest_def queryEscape_def escapeByte_def unreserved_def)

lemma sim_newRequests:
  assumes "authorization (access r) = ''Bearer Token''" "sessionID (access r) = ''1234''"
  shows "newGetRequest simEnv r (reqURL balanceRequest) None = Inr balanceRequest"
    and "newGetRequest simEnv r (reqURL tranRequest) None = Inr tranRequest"
    and "newPostRequest simEnv r (reqURL ussdRequest) (Some p) = Inr ussdRequest"
    and "newGetRequest simEnv r (reqURL fetchUssdRequest) None = Inr fetchUssdRequest"
  using assms
  by (simp_all add: newGetRequest_def newPostRequest_def newRequest_def appendAuthHeaders_def
      sim_fields simCheckRequest_def simpleUrl_def pathChar_def queryChar_def unreserved_def
      balanceRequest_def tranRequest_def ussdRequest_def fetchUssdRequest_def authHeaders_def)

lemma logged_fields:
  "baseURL loggedClient = ''http://h''" "authorization (access loggedClient) = ''Bearer Token''"
  "sessionID (access loggedClient) = ''1234''"
  by (simp_all add: loggedClient_def loggedSession_def simClient_def)

lemma session_fields:
  "baseURL sessionClient = ''http://h''" "authorization (access sessionClient) = ''Bearer Token''"
  "sessionID (access sessionClient) = ''1234''"
  by (simp_all add: sessionClient_def boundarySession_def simClient_def)

lemmas sim_requests =
  sim_urls [OF logged_fields(1)] sim_newRequests [OF logged_fields(2,3)]

lemmas sim_requests_session =
  sim_urls [OF session_fields(1)] sim_newRequests [OF session_fields(2,3)]

lemma logged_reset: "loggedClient\<lparr>access := reset (access loggedClient)\<rparr> = simClient"
  by (simp add: loggedClient_def simClient_def reset_def emptyAccess_def loggedSession_def)

lemma sim_ensure_loggedWorld:
  "ensureUserIsAuthenticated simEnv simClient (loggedWorld n tr) =
     (None, loggedClient, loggedWorld n (tr @ hydrationReads simKeys))"
  unfolding loggedWorld_def by (rule sim_ensure_logged) simp_all

lemma sim_doRequest_forbidden:
  "doRequest simEnv q (loggedWorld (Suc n) tr) =
     ((403, Some ''Forbidden'', None), loggedWorld n (tr @ [EvDo q]))"
  by (simp add: loggedWorld_def sim_doRequest)

lemma sim_doRequest_ok:
  "doRequest simEnv q (loggedWorld 0 tr) =
     ((200, Some (simBody (reqURL q)), None), loggedWorld 0 (tr @ [EvDo q]))"
  by (simp add: loggedWorld_def sim_doRequest)

lemma sim_Balance_forbidden:
  "BalanceEnquiry (Suc fuel) simEnv simClient (loggedWorld (Suc n) tr) =
   BalanceEnquiry fuel simEnv simClient
     (loggedWorld n (tr @ hydrationReads simKeys @ [EvDo balanceRequest]))"
  by (simp add: sim_ensure_loggedWorld sim_requests sim_doRequest_forbidden logged_reset
      StatusForbidden_def)

lemma sim_Balance_ok:
  "BalanceEnquiry (Suc fuel) simEnv simClient (loggedWorld 0 tr) =
   Some (Inr simBalance, loggedClient,
     loggedWorld 0 (tr @ hydrationReads simKeys @ [EvDo balanceRequest]))"
  by (simp add: sim_ensure_loggedWorld sim_requests sim_doRequest_ok sim_bodies sim_decoders
      StatusForbidden_def successCode_def StatusOK_def sim_fields bytes_def)

lemma sim_Balance_fresh_forbidden:
  "BalanceEnquiry (Suc fuel) simEnv simClient (simWorld (Suc n)) =
   BalanceEnquiry fuel simEnv simClient (loggedWorld n (loginEvents @ [EvDo balanceRequest]))"
  by (simp add: sim_ensure_fresh sim_requests sim_doRequest_forbidden logged_reset
      StatusForbidden_def)

lemma sim_Balance_fresh_ok:
  "BalanceEnquiry (Suc fuel) simEnv simClient (simWorld 0) =
   Some (Inr simBalance, loggedClient, loggedWorld 0 (loginEvents @ [EvDo balanceRequest]))"
  by (simp add: sim_ensure_fresh sim_requests sim_doRequest_ok sim_bodies sim_decoders
      StatusForbidden_def successCode_def StatusOK_def sim_fields bytes_def)

lemma is_EvDo [simp]: "isDo (EvDo q)" "\<not> isPostForm (EvDo q)"
  by (simp_all add: isDo_def isPostForm_def)

lemma count_reads [simp]:
  "filter isDo (hydrationReads k) = []" "filter isPostForm (hydrationReads k) = []"
  by (simp_all add: hydrationReads_def isDo_def isPostForm_def)

lemma count_login [simp]:
  "filter isDo loginEvents = []" "length (filter isPostForm loginEvents) = 1"
  by (simp_all add: loginEvents_def persistWrites_def isDo_def isPostForm_def)

lemma sim_Balance_logged:
  "\<exists>tr'. BalanceEnquiry (Suc n) simEnv simClient (loggedWorld n tr) =
           Some (Inr simBalance, loggedClient, loggedWorld 0 tr') \<and>
         length (filter isDo tr') = length (filter isDo tr) + Suc n \<and>
         filter isPostForm tr' = filter isPostForm tr"
proof (induction n arbitrary: tr)
  case 0
  show ?case unfolding sim_Balance_ok
    by (rule exI [of _ "tr @ hydrationReads simKeys @ [EvDo balanceRequest]"]) simp
next
  case (Suc n)
  from Suc.IH [of "tr @ hydrationReads simKeys @ [EvDo balanceRequest]"]
  show ?case
    unfolding sim_Balance_forbidden by (simp del: BalanceEnquiry.simps)
qed

lemma sim_Balance_retries:
  "resultOf (BalanceEnquiry (Suc n) simEnv simClient (simWorld n)) = Some (Inr simBalance) \<and>
   length (filter isDo (traceOf (BalanceEnquiry (Suc n) simEnv simClient (simWorld n)))) = Suc n \<and>
   length (filter isPostForm (traceOf (BalanceEnquiry (Suc n) simEnv simClient (simWorld n)))) = 1"
proof (cases n)
  case 0
  then show ?thesis
    unfolding 0 sim_Balance_fresh_ok
    by (simp add: resultOf_def traceOf_def loggedWorld_def)
next
  case (Suc m)
  from sim_Balance_logged [of m "loginEvents @ [EvDo balanceRequest]"]
  obtain tr' where
    "BalanceEnquiry (Suc m) simEnv simClient (loggedWorld m (loginEvents @ [EvDo balanceRequest])) =
       Some (Inr simBalance, loggedClient, loggedWorld 0 tr')"
    "length (filter isDo tr') = length (filter isDo (loginEvents @ [EvDo balanceRequest])) + Suc m"
    "filter isPostForm tr' = filter isPostForm (loginEvents @ [EvDo balanceRequest])"
    by blast
  then show ?thesis
    unfolding Suc sim_Balance_fresh_forbidden
    by (simp add: resultOf_def traceOf_def loggedWorld_def del: BalanceEnquiry.simps)
qed

lemma sim_Balance_out_of_fuel:
  "fuel \<le> n \<Longrightarrow> BalanceEnquiry fuel simEnv simClient (loggedWorld n tr) = None"
proof (induction fuel arbitrary: n tr)
  case 0
  show ?case by simp
next
  case (Suc fuel)
  then obtain m where n: "n = Suc m" and "fuel \<le> m" by (cases n) auto
  then show ?case unfolding n sim_Balance_forbidden by (simp add: Suc.IH del: BalanceEnquiry.simps)
qed

lemma sim_Fetch_forbidden:
  "FetchTransaction (Suc fuel) simEnv simClient (loggedWorld (Suc n) tr) None =
   FetchTransaction fuel simEnv simClient
     (loggedWorld n (tr @ hydrationReads simKeys @ [EvDo tranRequest])) None"
  by (simp add: sim_ensure_loggedWorld sim_requests sim_doRequest_forbidden logged_reset
      StatusForbidden_def)

lemma sim_Fetch_ok:
  "FetchTransaction (Suc fuel) simEnv simClient (loggedWorld 0 tr) None =
   Some (Inr [], loggedClient,
     loggedWorld 0 (tr @ hydrationReads simKeys @ [EvDo tranRequest]))"
  by (simp add: sim_ensure_loggedWorld sim_requests sim_doRequest_ok sim_bodies sim_decoders
      StatusForbidden_def successCode_def StatusOK_def sim_fields)

lemma sim_Fetch_fresh_forbidden:
  "FetchTransaction (Suc fuel) simEnv simClient (simWorld (Suc n)) None =
   FetchTransaction fuel simEnv simClient (loggedWorld n (loginEvents @ [EvDo tranRequest])) None"
  by (simp add: sim_ensure_fresh sim_requests sim_doRequest_forbidden logged_reset
      StatusForbidden_def)

lemma sim_Fetch_fresh_ok:
  "FetchTransaction (Suc fuel) simEnv simClient (simWorld 0) None =
   Some (Inr [], loggedClient, loggedWorld 0 (loginEvents @ [EvDo tranRequest]))"
  by (simp add: sim_ensure_fresh sim_requests sim_doRequest_ok sim_bodies sim_decoders
      StatusForbidden_def successCode_def StatusOK_def sim_fields)

lemma sim_Fetch_logged:
  "\<exists>tr'. FetchTransaction (Suc n) simEnv simClient (loggedWorld n tr) None =
           Some (Inr [], loggedClient, loggedWorld 0 tr') \<and>
         length (filter isDo tr') = length (filter isDo tr) + Suc n \<and>
         filter isPostForm tr' = filter isPostForm tr"
proof (induction n arbitrary: tr)
  case 0
  show ?case unfolding sim_Fetch_ok
    by (rule exI [of _ "tr @ hydrationReads simKeys @ [EvDo tranRequest]"]) simp
next
  case (Suc n)
  from Suc.IH [of "tr @ hydrationReads simKeys @ [EvDo tranRequest]"]
  show ?case
    unfolding sim_Fetch_forbidden by (simp del: FetchTransaction.simps)
qed

lemma sim_Fetch_retries:
  "resultOf (FetchTransaction (Suc n) simEnv simClient (simWorld n) None) = Some (Inr []) \<and>
   length (filter isDo (traceOf (FetchTransaction (Suc n) simEnv simClient (simWorld n) None))) =
     Suc n \<and>
   length (filter isPostForm
     (traceOf (FetchTransaction (Suc n) simEnv simClient (simWorld n) None))) = 1"
proof (cases n)
  case 0
  then show ?thesis
    unfolding 0 sim_Fetch_fresh_ok
    by (simp add: resultOf_def traceOf_def loggedWorld_def)
next
  case (Suc m)
  from sim_Fetch_logged [of m "loginEvents @ [EvDo tranRequest]"]
  obtain tr' where
    "FetchTransaction (Suc m) simEnv simClient (loggedWorld m (loginEvents @ [EvDo tranRequest])) None =
       Some (Inr [], loggedClient, loggedWorld 0 tr')"
    "length (filter isDo tr') = length (filter isDo (loginEvents @ [EvDo tranRequest])) + Suc m"
    "filter isPostForm tr' = filter isPostForm (loginEvents @ [EvDo tranRequest])"
    by blast
  then show ?thesis
    unfolding Suc sim_Fetch_fresh_forbidden
    by (simp add: resultOf_def traceOf_def loggedWorld_def del: FetchTransaction.simps)
qed

lemma sim_marshal:
  "\<exists>payload. Marshal simEnv 0 ''044'' ''ref'' = Inr payload"
  by (simp add: sim_fields simMarshal_def alnum_def)

lemma sim_Generate_forbidden:
  "GenerateUSSD simEnv simClient (simWorld (Suc n)) ''ref'' 0 ''044'' =
     (Inl (ToErrorResponse ''Forbidden''), loggedClient,
      loggedWorld n (loginEvents @ [EvDo ussdRequest]))"
proof -
  have a: "IsBankSupportedOnUSSD ''044''"
    by (simp add: IsBankSupportedOnUSSD_def BanksSupportedOnUssd_def)
  from sim_marshal obtain payload where m: "Marshal simEnv 0 ''044'' ''ref'' = Inr payload" ..
  show ?thesis
    by (simp add: GenerateUSSD_def a m sim_ensure_fresh sim_requests
        sim_doRequest_forbidden successCode_def
        StatusOK_def StatusCreated_def StatusAccepted_def toErrorResponse_def bytes_def)
qed

lemma sim_FetchUssd_forbidden:
  "FetchUSSDTransaction simEnv simClient (simWorld (Suc n)) ''ref'' =
     (Inl (ToErrorResponse ''Forbidden''), loggedClient,
      loggedWorld n (loginEvents @ [EvDo fetchUssdRequest]))"
  by (simp add: FetchUSSDTransaction_def sim_ensure_fresh sim_requests
      sim_doRequest_forbidden successCode_def
      StatusOK_def StatusCreated_def StatusAccepted_def toErrorResponse_def bytes_def)

lemma sim_ensure_session:
  "ensureUserIsAuthenticated simEnv sessionClient (simWorld n) = (None, sessionClient, simWorld n)"
  by (simp add: ensureUserIsAuthenticated_def hasSessionExpired_def hasExpired_def
      sessionClient_def boundarySession_def IsZero_def timeUnix_def int64_def unixToInternal_def
      callNow_def sim_fields simWorld_def After_def)

lemma sim_doRequest_fresh:
  "doRequest simEnv q (simWorld 0) =
     ((200, Some (simBody (reqURL q)), None), \<lparr>ext = ext (simWorld 0), trace = [EvDo q]\<rparr>)"
  by (simp add: simWorld_def sim_doRequest)

lemma sim_Balance_session:
  "BalanceEnquiry (Suc fuel) simEnv sessionClient (simWorld 0) =
     Some (Inr simBalance, sessionClient,
       \<lparr>ext = ext (simWorld 0), trace = [EvDo balanceRequest]\<rparr>)"
  by (simp add: sim_ensure_session sim_requests_session sim_doRequest_fresh sim_bodies
      sim_decoders StatusForbidden_def successCode_def StatusOK_def bytes_def sim_fields)

subsection \<open>Requests made by an operation\<close>

lemma persist_noDo:
  "persist e k r w = (res, w') \<Longrightarrow> filter isDo (trace w') = filter isDo (trace w)"
  by (auto simp add: persist_def callSetStringFor_def callSetIntFor_def step_def Let_def isDo_def
      split: prod.splits option.splits)

lemma login_noDo: "filter isDo (trace (snd (snd (login e r w)))) = filter isDo (trace w)"
proof -
  obtain a w1 where h: "hydrate e (makeAuthCacheKeys r) (access r) w = (a, w1)"
    by (cases "hydrate e (makeAuthCacheKeys r) (access r) w")
  have t1: "filter isDo (trace w1) = filter isDo (trace w)"
    using hydrate_trace' [OF h] by simp
  obtain b w2 where x: "hasExpired e a w1 = (b, w2)" by (cases "hasExpired e a w1")
  have t2: "trace w2 = trace w1" using x by (rule hasExpired_trace')
  show ?thesis
  proof (cases b)
    case False
    with h x t1 t2 show ?thesis by (simp add: login_def Let_def)
  next
    case True
    with h x t1 t2 show ?thesis
      by (auto simp add: login_def Let_def callPostForm_def callNow_def step_def isDo_def
          split: prod.splits sum.splits body.splits option.splits
          dest!: persist_noDo)
  qed
qed

lemma ensure_noDo:
  "filter isDo (trace (snd (snd (ensureUserIsAuthenticated e r w)))) = filter isDo (trace w)"
proof -
  obtain b w0 where x: "hasSessionExpired e r w = (b, w0)" by (cases "hasSessionExpired e r w")
  have "trace w0 = trace w" using x unfolding hasSessionExpired_def by (rule hasExpired_trace')
  with x login_noDo [of e r w0] show ?thesis
    by (cases b) (simp_all add: ensureUserIsAuthenticated_def)
qed

lemma BalanceEnquiry_forbidden:
  assumes "ensureUserIsAuthenticated e r w = (None, r1, w1)"
    and "generateUrl e r1 baseBalanceUrl [] = Some u"
    and "newGetRequest e r1 u None = Inr q"
    and "doRequest e q w1 = ((StatusForbidden, d, None), w2)"
  shows "BalanceEnquiry (Suc fuel) e r w =
    BalanceEnquiry fuel e (r1\<lparr>access := reset (access r1)\<rparr>) w2"
  using assms by simp

lemma FetchTransaction_forbidden:
  assumes "ensureUserIsAuthenticated e r w = (None, r1, w1)"
    and "generateUrl e r1 baseTransactionsUrl
           [case opts of None \<Rightarrow> [] | Some opt \<Rightarrow> ToMap opt] = Some u"
    and "newGetRequest e r1 u None = Inr q"
    and "doRequest e q w1 = ((StatusForbidden, Some d, None), w2)"
  shows "FetchTransaction (Suc fuel) e r w opts =
    FetchTransaction fuel e (r1\<lparr>access := reset (access r1)\<rparr>) w2 opts"
  using assms by (simp add: Let_def)

lemma reset_empty: "reset a = emptyAccess"
  by (simp add: reset_def emptyAccess_def)

lemma forbiddenBalance_continues:
  "forbiddenBalance n e r w = Some (r', w') \<Longrightarrow>
   BalanceEnquiry (n + fuel) e r w = BalanceEnquiry fuel e r' w'"
proof (induction n arbitrary: r w)
  case 0
  then show ?case by simp
next
  case (Suc n)
  from Suc.prems show ?case
    by (auto simp add: Suc.IH split: prod.splits option.splits sum.splits if_splits)
qed

lemma forbiddenBalance_requests:
  "forbiddenBalance n e r w = Some (r', w') \<Longrightarrow>
   length (filter isDo (trace w')) = length (filter isDo (trace w)) + n \<and>
   (0 < n \<longrightarrow> access r' = emptyAccess)"
proof (induction n arbitrary: r w)
  case 0
  then show ?case by simp
next
  case (Suc n)
  obtain err r1 w1 where en: "ensureUserIsAuthenticated e r w = (err, r1, w1)"
    by (cases "ensureUserIsAuthenticated e r w")
  have d1: "filter isDo (trace w1) = filter isDo (trace w)"
    using ensure_noDo [of e r w] en by simp
  from Suc.prems en obtain q res w2 where
    dr: "doRequest e q w1 = (res, w2)" and
    rest: "forbiddenBalance n e (r1\<lparr>access := reset (access r1)\<rparr>) w2 = Some (r', w')"
    by (auto split: prod.splits option.splits sum.splits if_splits)
  have d2: "trace w2 = trace w1 @ [EvDo q]" using dr by (rule doRequest_trace')
  from Suc.IH [OF rest] have
    c: "length (filter isDo (trace w')) = length (filter isDo (trace w2)) + n" and
    a: "0 < n \<longrightarrow> access r' = emptyAccess" by simp_all
  have "access r' = emptyAccess"
  proof (cases n)
    case 0
    with rest show ?thesis by (auto simp add: reset_empty)
  next
    case (Suc m)
    with a show ?thesis by simp
  qed
  with c d1 d2 show ?case by simp
qed

lemma forbiddenFetch_continues:
  "forbiddenFetch n e r w opts = Some (r', w') \<Longrightarrow>
   FetchTransaction (n + fuel) e r w opts = FetchTransaction fuel e r' w' opts"
proof (induction n arbitrary: r w)
  case 0
  then show ?case by simp
next
  case (Suc n)
  from Suc.prems obtain r1 w1 u q d w2 where
    st: "ensureUserIsAuthenticated e r w = (None, r1, w1)"
    "generateUrl e r1 baseTransactionsUrl [case opts of None \<Rightarrow> [] | Some opt \<Rightarrow> ToMap opt] =
       Some u"
    "newGetRequest e r1 u None = Inr q"
    "doRequest e q w1 = ((StatusForbidden, Some d, None), w2)"
    and rest: "forbiddenFetch n e (r1\<lparr>access := reset (access r1)\<rparr>) w2 opts = Some (r', w')"
    by (auto simp: Let_def split: prod.splits option.splits sum.splits if_splits)
  from st have "FetchTransaction (Suc (n + fuel)) e r w opts =
      FetchTransaction (n + fuel) e (r1\<lparr>access := reset (access r1)\<rparr>) w2 opts"
    by (rule FetchTransaction_forbidden)
  with Suc.IH [OF rest] show ?case by simp
qed

lemma forbiddenFetch_requests:
  "forbiddenFetch n e r w opts = Some (r', w') \<Longrightarrow>
   length (filter isDo (trace w')) = length (filter isDo (trace w)) + n \<and>
   (0 < n \<longrightarrow> access r' = emptyAccess)"
proof (induction n arbitrary: r w)
  case 0
  then show ?case by simp
next
  case (Suc n)
  obtain err r1 w1 where en: "ensureUserIsAuthenticated e r w = (err, r1, w1)"
    by (cases "ensureUserIsAuthenticated e r w")
  have d1: "filter isDo (trace w1) = filter isDo (trace w)"
    using ensure_noDo [of e r w] en by simp
  from Suc.prems en obtain q res w2 where
    dr: "doRequest e q w1 = (res, w2)" and
    rest: "forbiddenFetch n e (r1\<lparr>access := reset (access r1)\<rparr>) w2 opts = Some (r', w')"
    by (auto simp: Let_def split: prod.splits option.splits sum.splits if_splits)
  have d2: "trace w2 = trace w1 @ [EvDo q]" using dr by (rule doRequest_trace')
  from Suc.IH [OF rest] have
    c: "length (filter isDo (trace w')) = length (filter isDo (trace w2)) + n" and
    a: "0 < n \<longrightarrow> access r' = emptyAccess" by simp_all
  have "access r' = emptyAccess"
  proof (cases n)
    case 0
    with rest show ?thesis by (auto simp add: reset_empty)
  next
    case (Suc m)
    with a show ?thesis by simp
  qed
  with c d1 d2 show ?case by simp
qed

lemma sim_forbiddenBalance:
  "forbiddenBalance (Suc 0) simEnv simClient (simWorld (Suc n)) =
     Some (simClient, loggedWorld n (loginEvents @ [EvDo balanceRequest]))"
  by (simp add: sim_ensure_fresh sim_requests sim_doRequest_forbidden logged_reset
      StatusForbidden_def)

lemma sim_forbiddenFetch:
  "forbiddenFetch (Suc 0) simEnv simClient (simWorld (Suc n)) None =
     Some (simClient, loggedWorld n (loginEvents @ [EvDo tranRequest]))"
  by (simp add: sim_ensure_fresh sim_requests sim_doRequest_forbidden logged_reset
      StatusForbidden_def)

subsection \<open>A cached session avoids the login\<close>

text \<open>
  Claim C5. \<^verbatim>\<open>ensureUserIsAuthenticated\<close> first tests the in-memory session
  (\<open>b\<close> is the result) and, when that has expired, \<^verbatim>\<open>login\<close> hydrates the session from
  the store. If the hydrated session is valid, \<^verbatim>\<open>ensureUserIsAuthenticated\<close> succeeds;
  the only calls it has made are the four reads of the store, so no login request was
  sent. (When the in-memory session is still valid, it succeeds without any call to the
  store or to the remote service.)
\<close>

theorem ensure_cached_session_no_login:
  assumes "hasSessionExpired e r w = (b, w0)"
    and "hydrate e (makeAuthCacheKeys r) (access r) w0 = (a, w1)"
    and "\<not> fst (hasExpired e a w1)"
  shows "fst (ensureUserIsAuthenticated e r w) = None \<and>
    trace (snd (snd (ensureUserIsAuthenticated e r w))) =
      trace w @ (if b then hydrationReads (makeAuthCacheKeys r) else []) \<and>
    filter isPostForm (trace (snd (snd (ensureUserIsAuthenticated e r w)))) =
      filter isPostForm (trace w)"
proof -
  have t0: "trace w0 = trace w"
    using assms(1) unfolding hasSessionExpired_def by (rule hasExpired_trace')
  show ?thesis
  proof (cases b)
    case False
    with assms(1) t0 show ?thesis by (simp add: ensureUserIsAuthenticated_def)
  next
    case True
    have t1: "trace w1 = trace w0 @ hydrationReads (makeAuthCacheKeys r)"
      using assms(2) by (rule hydrate_trace')
    have "ensureUserIsAuthenticated e r w = (None, r\<lparr>access := a\<rparr>, snd (hasExpired e a w1))"
      using assms(1) True login_valid [OF assms(2,3)] by (simp add: ensureUserIsAuthenticated_def)
    then show ?thesis using True t0 t1 by (simp add: hasExpired_trace)
  qed
qed

text \<open>
  The instance: the store of the test double holds all four fields of a session that
  has not expired, the in-memory session is empty.
\<close>

theorem ensure_cached_session_no_login_witness:
  "ensureUserIsAuthenticated simEnv simClient (loggedWorld 0 []) =
     (None, loggedClient, loggedWorld 0 (hydrationReads simKeys)) \<and>
   filter isPostForm (trace (snd (snd (ensureUserIsAuthenticated simEnv simClient (loggedWorld 0 []))))) = []"
proof -
  let ?w = "loggedWorld 0 []"
  have k: "makeAuthCacheKeys simClient = simKeys" by (simp add: simKeys_def)
  have 1: "hasSessionExpired simEnv simClient ?w = (True, ?w)"
    by (simp add: hasSessionExpired_def hasExpired_def simClient_def emptyAccess_def IsZero_def)
  have 2: "hydrate simEnv (makeAuthCacheKeys simClient) (access simClient) ?w =
      (loggedSession, loggedWorld 0 ([] @ hydrationReads simKeys))"
    unfolding k loggedWorld_def by (rule sim_hydrate_logged) simp
  have 3: "\<not> fst (hasExpired simEnv loggedSession (loggedWorld 0 ([] @ hydrationReads simKeys)))"
    by (simp add: loggedWorld_def sim_hasExpired_logged)
  have E: "ensureUserIsAuthenticated simEnv simClient ?w =
      (None, loggedClient, loggedWorld 0 (hydrationReads simKeys))"
    using sim_ensure_loggedWorld [of 0 "[]"] by simp
  from ensure_cached_session_no_login [OF 1 2 3]
  have "filter isPostForm (trace (snd (snd (ensureUserIsAuthenticated simEnv simClient ?w)))) =
      filter isPostForm (trace ?w)" by (rule conjunct2 [THEN conjunct2])
  also have "trace ?w = []" by (simp add: loggedWorld_def)
  finally show ?thesis using E by simp
qed

subsection \<open>Hydration tolerates failed reads\<close>

text \<open>
  Claim C6. The four reads of the store are always made, in the order token, session id,
  encrypted PIN, expiry, whatever each of them returns. A field is replaced only when
  its read returned no error and a non-empty (for the expiry: positive) value; after a
  read miss or a read error the field keeps its in-memory value. Hydration has no error
  result: when the session it leaves is valid, \<^verbatim>\<open>login\<close> returns success, however many
  reads failed.
\<close>

theorem hydrate_read_failure_nonfatal:
  assumes "GetString e (authorizationKey (makeAuthCacheKeys r)) (ext w) = ((v1, e1), x1)"
    and "GetString e (sessionIDKey (makeAuthCacheKeys r)) x1 = ((v2, e2), x2)"
    and "GetString e (encodedPinKey (makeAuthCacheKeys r)) x2 = ((v3, e3), x3)"
    and "GetInt e (expirationKey (makeAuthCacheKeys r)) x3 = ((v4, e4), x4)"
    and "a = \<lparr>authorization = (if e1 = None \<and> v1 \<noteq> [] then v1 else authorization (access r)),
              sessionID = (if e2 = None \<and> v2 \<noteq> [] then v2 else sessionID (access r)),
              expiration = (if e4 = None \<and> 0 < v4 then timeUnix v4 else expiration (access r)),
              encodedPin = (if e3 = None \<and> v3 \<noteq> [] then v3 else encodedPin (access r))\<rparr>"
    and "w1 = \<lparr>ext = x4, trace = trace w @ hydrationReads (makeAuthCacheKeys r)\<rparr>"
  shows "hydrate e (makeAuthCacheKeys r) (access r) w = (a, w1) \<and>
    (\<not> fst (hasExpired e a w1) \<longrightarrow>
       login e r w = (None, r\<lparr>access := a\<rparr>, snd (hasExpired e a w1)))"
proof -
  have h: "hydrate e (makeAuthCacheKeys r) (access r) w = (a, w1)"
    unfolding assms(5,6) using assms(1-4) by (rule hydrate_eq)
  then show ?thesis using login_valid [OF h] by simp
qed

text \<open>
  The instance: the store holds the token and the expiry only; the reads of the session
  id and of the encrypted PIN fail, these two fields keep their in-memory values, and
  \<^verbatim>\<open>login\<close> succeeds.
\<close>

theorem hydrate_read_failure_nonfatal_witness:
  "login simEnv sessionClient partialWorld =
     (None,
      sessionClient\<lparr>access := \<lparr>authorization = ''T2'', sessionID = ''1234'',
         expiration = timeUnix 1700003600, encodedPin = ''3132333431323334''\<rparr>\<rparr>,
      \<lparr>ext = ext partialWorld, trace = hydrationReads simKeys\<rparr>)"
proof -
  let ?k = "makeAuthCacheKeys sessionClient"
  let ?x = "ext partialWorld"
  let ?a = "\<lparr>authorization = ''T2'', sessionID = ''1234'',
         expiration = timeUnix 1700003600, encodedPin = ''3132333431323334''\<rparr>"
  let ?w1 = "\<lparr>ext = ?x, trace = hydrationReads simKeys\<rparr>"
  have k: "?k = simKeys" by (simp add: sessionClient_def simKeys_def)
  have t: "table ?x = [(authorizationKey simKeys, StoredString ''T2''),
      (expirationKey simKeys, StoredInt 1700003600)]"
    by (simp add: partialWorld_def simKeys_def)
  have 1: "GetString simEnv (authorizationKey ?k) (ext partialWorld) = ((''T2'', None), ?x)"
    unfolding k by (simp add: sim_fields simGetString_def t)
  have 2: "GetString simEnv (sessionIDKey ?k) ?x = (([], Some ''data not found''), ?x)"
    unfolding k by (simp add: sim_fields simGetString_def t simKeys_neq)
  have 3: "GetString simEnv (encodedPinKey ?k) ?x = (([], Some ''data not found''), ?x)"
    unfolding k by (simp add: sim_fields simGetString_def t simKeys_neq)
  have 4: "GetInt simEnv (expirationKey ?k) ?x = ((1700003600, None), ?x)"
    unfolding k by (simp add: sim_fields simGetInt_def t simKeys_neq)
  have 5: "?a = \<lparr>authorization = (if None = (None :: xerror option) \<and> ''T2'' \<noteq> [] then ''T2''
                 else authorization (access sessionClient)),
      sessionID = (if Some ''data not found'' = None \<and> [] \<noteq> ([] :: string) then []
                 else sessionID (access sessionClient)),
      expiration = (if None = (None :: xerror option) \<and> 0 < (1700003600 :: int)
                 then timeUnix 1700003600 else expiration (access sessionClient)),
      encodedPin = (if Some ''data not found'' = None \<and> [] \<noteq> ([] :: string) then []
                 else encodedPin (access sessionClient))\<rparr>"
    by (simp add: sessionClient_def boundarySession_def)
  have 6: "?w1 = \<lparr>ext = ?x, trace = trace partialWorld @ hydrationReads ?k\<rparr>"
    unfolding k by (simp add: partialWorld_def)
  have v: "\<not> fst (hasExpired simEnv ?a ?w1)"
    by (simp add: hasExpired_def IsZero_def timeUnix_def int64_def unixToInternal_def callNow_def
        sim_fields After_def partialWorld_def)
  have s: "snd (hasExpired simEnv ?a ?w1) = ?w1"
    by (simp add: hasExpired_def IsZero_def timeUnix_def int64_def unixToInternal_def callNow_def
        sim_fields After_def partialWorld_def)
  from hydrate_read_failure_nonfatal [OF 1 2 3 4 5 6] v s
  show ?thesis by simp
qed

subsection \<open>Persistence stops at the first failed write\<close>

text \<open>
  Claim C7. When \<^verbatim>\<open>login\<close> has obtained a session from the remote service, it writes
  the token, the session id, the encrypted PIN and the expiry to the store, in this
  order. The first write that fails ends \<^verbatim>\<open>login\<close> with that failure: the writes
  recorded are those up to and including the failing one, and the external state is the
  one that the failing write left, so no later entry has been written.
\<close>

theorem login_persist_short_circuit:
  assumes "hydrate e (makeAuthCacheKeys r) (access r) w = (a, w1)"
    and "hasExpired e a w1 = (True, w2)"
    and "PostForm e (baseURL r @ baseLoginUrl) (loginPayload e r) (ext w2) = (Inr res, x3)"
    and "Body res = Content b"
    and "successCode (StatusCode res)"
    and "DesEncrypt e (Pin (account r)) (Header res ''X-SessionID'') = (h, None)"
    and "Now e x3 = (t, x4)"
    and "r2 = r\<lparr>access := \<lparr>authorization = Header res ''Authorization'',
                            sessionID = Header res ''X-SessionID'',
                            expiration = t + SessionLength (account r),
                            encodedPin = h\<rparr>\<rparr>"
    and "SetStringFor e (authorizationKey (makeAuthCacheKeys r)) (Header res ''Authorization'')
           (SessionLength (account r)) x4 = (e1, y1)"
    and "SetStringFor e (sessionIDKey (makeAuthCacheKeys r)) (Header res ''X-SessionID'')
           (SessionLength (account r)) y1 = (e2, y2)"
    and "SetStringFor e (encodedPinKey (makeAuthCacheKeys r)) h (SessionLength (account r)) y2 =
           (e3, y3)"
    and "SetIntFor e (expirationKey (makeAuthCacheKeys r)) (Unix (t + SessionLength (account r)))
           (SessionLength (account r)) y3 = (e4, y4)"
    and "tr = trace w2 @ [EvPostForm (baseURL r @ baseLoginUrl) (loginPayload e r)]"
    and "ws = persistWrites (makeAuthCacheKeys r) r2"
  shows "login e r w =
    (if e1 \<noteq> None then (map_option External e1, r2, \<lparr>ext = y1, trace = tr @ take 1 ws\<rparr>)
     else if e2 \<noteq> None then (map_option External e2, r2, \<lparr>ext = y2, trace = tr @ take 2 ws\<rparr>)
     else if e3 \<noteq> None then (map_option External e3, r2, \<lparr>ext = y3, trace = tr @ take 3 ws\<rparr>)
     else (map_option External e4, r2, \<lparr>ext = y4, trace = tr @ ws\<rparr>))"
  using assms by (rule login_persist_eq)

text \<open>
  The instance: the store rejects the write of the session id. The token has been
  written, the write of the session id was attempted, and the encrypted PIN and the
  expiry were not written.
\<close>

theorem login_persist_short_circuit_witness:
  "fst (login simEnv simClient rejectWorld) = Some (External ''write rejected'') \<and>
   trace (snd (snd (login simEnv simClient rejectWorld))) =
     hydrationReads (makeAuthCacheKeys simClient) @
     [EvPostForm ''http://h/rc/rest/agent/login''
        [(''userName'', ''sample''), (''password'', ''password''), (''sessionLength'', ''3600'')],
      EvSetStringFor (authorizationKey (makeAuthCacheKeys simClient)) ''Bearer Token''
        3600000000000,
      EvSetStringFor (sessionIDKey (makeAuthCacheKeys simClient)) ''1234'' 3600000000000] \<and>
   table (ext (snd (snd (login simEnv simClient rejectWorld)))) =
     [(authorizationKey (makeAuthCacheKeys simClient), StoredString ''Bearer Token'')]"
proof -
  let ?k = "makeAuthCacheKeys simClient"
  let ?x = "ext rejectWorld"
  let ?w1 = "\<lparr>ext = ?x, trace = [] @ hydrationReads ?k\<rparr>"
  let ?res = "\<lparr>StatusCode = 200, Header = simLoginHeader, Body = Content ''{}''\<rparr>"
  let ?d = "3600000000000 :: int"
  let ?y1 = "?x\<lparr>table := [(authorizationKey ?k, StoredString ''Bearer Token'')]\<rparr>"
  let ?h = "hex ''12341234''"
  let ?t = "timeUnix 1700000000"
  have h1: "hydrate simEnv ?k (access simClient) rejectWorld = (emptyAccess, ?w1)"
    using hydrate_eq [of simEnv ?k rejectWorld "[]" "Some ''data not found''" ?x
        "[]" "Some ''data not found''" ?x "[]" "Some ''data not found''" ?x
        0 "Some ''data not found''" ?x emptyAccess]
    by (simp add: sim_fields simGetString_def simGetInt_def rejectWorld_def simClient_def
        emptyAccess_def)
  have h2: "hasExpired simEnv emptyAccess ?w1 = (True, ?w1)"
    by (simp add: hasExpired_def emptyAccess_def IsZero_def)
  have h3: "PostForm simEnv (baseURL simClient @ baseLoginUrl) (loginPayload simEnv simClient)
      (ext ?w1) = (Inr ?res, ?x)"
    by (simp add: sim_fields simPostForm_def)
  have h4: "Body ?res = Content ''{}''" by simp
  have h5: "successCode (StatusCode ?res)" by (simp add: successCode_def StatusOK_def)
  have h6: "DesEncrypt simEnv (Pin (account simClient)) (Header ?res ''X-SessionID'') = (?h, None)"
    by (simp add: sim_fields simClient_def simAccount_def simLoginHeader_def)
  have h7: "Now simEnv ?x = (?t, ?x)"
    by (simp add: sim_fields rejectWorld_def)
  have len: "SessionLength (account simClient) = ?d"
    by (simp add: simClient_def simAccount_def)
  have h9: "SetStringFor simEnv (authorizationKey ?k) (Header ?res ''Authorization'')
      (SessionLength (account simClient)) ?x = (None, ?y1)"
    by (simp add: sim_fields simSetStringFor_def rejectWorld_def keys_neq simLoginHeader_def)
  have h10: "SetStringFor simEnv (sessionIDKey ?k) (Header ?res ''X-SessionID'')
      (SessionLength (account simClient)) ?y1 = (Some ''write rejected'', ?y1)"
    by (simp add: sim_fields simSetStringFor_def rejectWorld_def)
  have h11: "SetStringFor simEnv (encodedPinKey ?k) ?h (SessionLength (account simClient)) ?y1 =
      (fst (simSetStringFor (encodedPinKey ?k) ?h ?d ?y1),
       snd (simSetStringFor (encodedPinKey ?k) ?h ?d ?y1))"
    by (simp add: sim_fields len)
  have h12: "SetIntFor simEnv (expirationKey ?k)
      (Unix (?t + SessionLength (account simClient))) (SessionLength (account simClient))
      (snd (simSetStringFor (encodedPinKey ?k) ?h ?d ?y1)) =
      (fst (simSetIntFor (expirationKey ?k) (Unix (?t + ?d)) ?d
             (snd (simSetStringFor (encodedPinKey ?k) ?h ?d ?y1))),
       snd (simSetIntFor (expirationKey ?k) (Unix (?t + ?d)) ?d
             (snd (simSetStringFor (encodedPinKey ?k) ?h ?d ?y1))))"
    by (simp add: sim_fields len)
  note L = login_persist_short_circuit [OF h1 h2 h3 h4 h5 h6 h7 refl h9 h10 h11 h12 refl refl]
  show ?thesis
    unfolding L
    by (simp add: persistWrites_def simLoginHeader_def simClient_def simAccount_def
        baseLoginUrl_def loginPayload_def sim_fields sim_sessionLength rejectWorld_def)
qed

subsection \<open>When the session is hydrated\<close>

text \<open>
  Claim C8, as the code has it. \<^verbatim>\<open>ensureUserIsAuthenticated\<close> calls \<^verbatim>\<open>login\<close>, which
  hydrates the session, only when the in-memory session has expired. In that case the
  four reads of the store are the first calls of each of the four operations, so they
  precede the operation's request; when the in-memory session is still valid, the store
  is not read.
\<close>

theorem hydration_only_when_expired:
  "(fst (hasSessionExpired e r w) \<longrightarrow>
      prefix (trace w @ hydrationReads (makeAuthCacheKeys r))
        (trace (snd (snd (ensureUserIsAuthenticated e r w)))) \<and>
      (\<forall>out. BalanceEnquiry fuel e r w = Some out \<longrightarrow>
         prefix (trace w @ hydrationReads (makeAuthCacheKeys r)) (trace (snd (snd out)))) \<and>
      (\<forall>out. FetchTransaction fuel e r w opts = Some out \<longrightarrow>
         prefix (trace w @ hydrationReads (makeAuthCacheKeys r)) (trace (snd (snd out)))) \<and>
      prefix (trace w @ hydrationReads (makeAuthCacheKeys r))
        (trace (snd (snd (GenerateUSSD e r w reference amount bankCode)))) \<and>
      prefix (trace w @ hydrationReads (makeAuthCacheKeys r))
        (trace (snd (snd (FetchUSSDTransaction e r w reference))))) \<and>
   (\<not> fst (hasSessionExpired e r w) \<longrightarrow>
      trace (snd (snd (ensureUserIsAuthenticated e r w))) = trace w)"
proof (intro conjI impI allI)
  assume x: "fst (hasSessionExpired e r w)"
  let ?p = "trace w @ hydrationReads (makeAuthCacheKeys r)"
  let ?t = "trace (snd (snd (ensureUserIsAuthenticated e r w)))"
  show en: "prefix ?p ?t" using x by (rule ensure_expired_trace)
  show "prefix ?p (trace (snd (snd out)))" if "BalanceEnquiry fuel e r w = Some out" for out
    using en BalanceEnquiry_after_ensure [OF that] by (rule prefix_order.trans)
  show "prefix ?p (trace (snd (snd out)))" if "FetchTransaction fuel e r w opts = Some out" for out
    using en FetchTransaction_after_ensure [OF that] by (rule prefix_order.trans)
  show "prefix ?p (trace (snd (snd (GenerateUSSD e r w reference amount bankCode))))"
    using en GenerateUSSD_after_ensure by (rule prefix_order.trans)
  show "prefix ?p (trace (snd (snd (FetchUSSDTransaction e r w reference))))"
    using en FetchUSSDTransaction_after_ensure by (rule prefix_order.trans)
next
  assume "\<not> fst (hasSessionExpired e r w)"
  then show "trace (snd (snd (ensureUserIsAuthenticated e r w))) = trace w"
    by (rule ensure_valid_trace)
qed

theorem hydration_only_when_expired_witness:
  "fst (hasSessionExpired simEnv simClient (simWorld 0)) \<and>
   prefix (hydrationReads simKeys) (traceOf (BalanceEnquiry 1 simEnv simClient (simWorld 0))) \<and>
   \<not> fst (hasSessionExpired simEnv sessionClient (simWorld 0)) \<and>
   trace (snd (snd (ensureUserIsAuthenticated simEnv sessionClient (simWorld 0)))) = []"
proof -
  have x: "fst (hasSessionExpired simEnv simClient (simWorld 0))"
    by (simp add: hasSessionExpired_def hasExpired_def simClient_def emptyAccess_def IsZero_def)
  have v: "\<not> fst (hasSessionExpired simEnv sessionClient (simWorld 0))"
    by (simp add: hasSessionExpired_def hasExpired_def sessionClient_def boundarySession_def
        IsZero_def timeUnix_def int64_def unixToInternal_def callNow_def sim_fields simWorld_def After_def)
  have b: "BalanceEnquiry 1 simEnv simClient (simWorld 0) =
      Some (Inr simBalance, loggedClient, loggedWorld 0 (loginEvents @ [EvDo balanceRequest]))"
    unfolding One_nat_def by (rule sim_Balance_fresh_ok)
  have t0: "trace (simWorld 0) = []" by (simp add: simWorld_def)
  have k: "makeAuthCacheKeys simClient = simKeys" by (simp add: simKeys_def)
  note T = hydration_only_when_expired [of simEnv simClient "simWorld 0" 1 None "''ref''" 0
      "''044''", THEN conjunct1, rule_format, OF x, THEN conjunct2, THEN conjunct1, rule_format,
      OF b]
  from T have p: "prefix (hydrationReads simKeys)
      (traceOf (BalanceEnquiry 1 simEnv simClient (simWorld 0)))"
    unfolding b t0 k by (simp add: traceOf_def)
  note T' = hydration_only_when_expired [of simEnv sessionClient "simWorld 0" 1 None "''ref''" 0
      "''044''", THEN conjunct2, rule_format, OF v]
  from T' have "trace (snd (snd (ensureUserIsAuthenticated simEnv sessionClient (simWorld 0)))) =
      trace (simWorld 0)" .
  with x p v t0 show ?thesis by simp
qed

text \<open>
  Claim C8 as stated fails: with a valid in-memory session, \<^verbatim>\<open>BalanceEnquiry\<close> sends
  its request without having read the store.
\<close>

theorem hydration_skipped_counterexample:
  "resultOf (BalanceEnquiry 1 simEnv sessionClient (simWorld 0)) = Some (Inr simBalance) \<and>
   traceOf (BalanceEnquiry 1 simEnv sessionClient (simWorld 0)) = [EvDo balanceRequest] \<and>
   filter isRead (traceOf (BalanceEnquiry 1 simEnv sessionClient (simWorld 0))) = []"
  unfolding One_nat_def sim_Balance_session
  by (simp add: resultOf_def traceOf_def isRead_def)

subsection \<open>The answer 403\<close>

text \<open>
  Claim C1 does not hold for \<^verbatim>\<open>GenerateUSSD\<close> and \<^verbatim>\<open>FetchUSSDTransaction\<close>, which have
  no branch for the status 403. Against a service that answers the first operation
  request with 403, both return the error made from the response body, leave the
  session as it is (it is not the reset session) and send no second request, where
  \<^verbatim>\<open>BalanceEnquiry\<close> resets the session, calls itself and succeeds.
\<close>

theorem ussd_operations_do_not_retry:
  "GenerateUSSD simEnv simClient (simWorld 1) ''ref'' 0 ''044'' =
     (Inl (ToErrorResponse ''Forbidden''), loggedClient,
      loggedWorld 0 (loginEvents @ [EvDo ussdRequest])) \<and>
   FetchUSSDTransaction simEnv simClient (simWorld 1) ''ref'' =
     (Inl (ToErrorResponse ''Forbidden''), loggedClient,
      loggedWorld 0 (loginEvents @ [EvDo fetchUssdRequest])) \<and>
   access loggedClient \<noteq> reset (access loggedClient) \<and>
   resultOf (BalanceEnquiry 2 simEnv simClient (simWorld 1)) = Some (Inr simBalance)"
proof -
  have "resultOf (BalanceEnquiry (Suc 1) simEnv simClient (simWorld 1)) = Some (Inr simBalance)"
    using sim_Balance_retries [of 1] by (rule conjunct1)
  moreover have "Suc 1 = 2" by simp
  ultimately have b: "resultOf (BalanceEnquiry 2 simEnv simClient (simWorld 1)) =
      Some (Inr simBalance)" by (simp only:)
  have n: "access loggedClient \<noteq> reset (access loggedClient)"
    by (simp add: loggedClient_def loggedSession_def reset_def)
  show ?thesis
    unfolding One_nat_def sim_Generate_forbidden sim_FetchUssd_forbidden
    using b n unfolding One_nat_def by simp
qed

text \<open>
  Claim C2, as the code has it. In \<^verbatim>\<open>BalanceEnquiry\<close> and \<^verbatim>\<open>FetchTransaction\<close> an
  answer 403 resets the session and calls the operation again, and nothing counts these
  calls: after any number \<open>n\<close> of rounds that were each answered with 403, the call has
  sent \<open>n\<close> requests, holds a reset session and goes on exactly as a new call of the
  operation does. So against a service that answers the first \<open>m\<close> operation requests
  with 403 and accepts the next one, both operations send \<open>m + 1\<close> requests and succeed.
\<close>

theorem retry_unbounded:
  "(forbiddenBalance n e r w = Some (r', w') \<longrightarrow>
      BalanceEnquiry (n + fuel) e r w = BalanceEnquiry fuel e r' w' \<and>
      length (filter isDo (trace w')) = length (filter isDo (trace w)) + n \<and>
      (0 < n \<longrightarrow> access r' = emptyAccess)) \<and>
   (forbiddenFetch n e r w opts = Some (r'', w'') \<longrightarrow>
      FetchTransaction (n + fuel) e r w opts = FetchTransaction fuel e r'' w'' opts \<and>
      length (filter isDo (trace w'')) = length (filter isDo (trace w)) + n \<and>
      (0 < n \<longrightarrow> access r'' = emptyAccess)) \<and>
   resultOf (BalanceEnquiry (Suc m) simEnv simClient (simWorld m)) = Some (Inr simBalance) \<and>
   length (filter isDo (traceOf (BalanceEnquiry (Suc m) simEnv simClient (simWorld m)))) = Suc m \<and>
   resultOf (FetchTransaction (Suc m) simEnv simClient (simWorld m) None) = Some (Inr []) \<and>
   length (filter isDo (traceOf (FetchTransaction (Suc m) simEnv simClient (simWorld m) None))) =
     Suc m"
  using forbiddenBalance_continues [of n e r w r' w' fuel]
    forbiddenBalance_requests [of n e r w r' w']
    forbiddenFetch_continues [of n e r w opts r'' w'' fuel]
    forbiddenFetch_requests [of n e r w opts r'' w'']
    sim_Balance_retries [of m] sim_Fetch_retries [of m]
  by blast

text \<open>
  The instance: the service of the test double answers the first request with 403.
  After that round the session is reset, and the call goes on as a new call in a world
  whose store holds the session.
\<close>

theorem retry_unbounded_witness:
  "forbiddenBalance 1 simEnv simClient (simWorld 1) =
     Some (simClient, loggedWorld 0 (loginEvents @ [EvDo balanceRequest])) \<and>
   BalanceEnquiry (1 + 1) simEnv simClient (simWorld 1) =
     BalanceEnquiry 1 simEnv simClient (loggedWorld 0 (loginEvents @ [EvDo balanceRequest])) \<and>
   forbiddenFetch 1 simEnv simClient (simWorld 1) None =
     Some (simClient, loggedWorld 0 (loginEvents @ [EvDo tranRequest])) \<and>
   FetchTransaction (1 + 1) simEnv simClient (simWorld 1) None =
     FetchTransaction 1 simEnv simClient (loggedWorld 0 (loginEvents @ [EvDo tranRequest])) None"
proof -
  have b: "forbiddenBalance 1 simEnv simClient (simWorld 1) =
      Some (simClient, loggedWorld 0 (loginEvents @ [EvDo balanceRequest]))"
    unfolding One_nat_def by (rule sim_forbiddenBalance)
  have f: "forbiddenFetch 1 simEnv simClient (simWorld 1) None =
      Some (simClient, loggedWorld 0 (loginEvents @ [EvDo tranRequest]))"
    unfolding One_nat_def by (rule sim_forbiddenFetch)
  note T = retry_unbounded [of 1 simEnv simClient "simWorld 1" simClient
      "loggedWorld 0 (loginEvents @ [EvDo balanceRequest])" 1 None simClient
      "loggedWorld 0 (loginEvents @ [EvDo tranRequest])" 0]
  from T [THEN conjunct1, rule_format, OF b, THEN conjunct1]
  have b': "BalanceEnquiry (1 + 1) simEnv simClient (simWorld 1) =
     BalanceEnquiry 1 simEnv simClient (loggedWorld 0 (loginEvents @ [EvDo balanceRequest]))" .
  from T [THEN conjunct2, THEN conjunct1, rule_format, OF f, THEN conjunct1]
  have f': "FetchTransaction (1 + 1) simEnv simClient (simWorld 1) None =
     FetchTransaction 1 simEnv simClient (loggedWorld 0 (loginEvents @ [EvDo tranRequest])) None" .
  from b b' f f' show ?thesis by (intro conjI)
qed

text \<open>
  Claim C2 as stated fails: the service answers 403 twice, and \<^verbatim>\<open>BalanceEnquiry\<close> does
  not fail after the second 403 but sends a third request and succeeds.
\<close>

theorem retry_twice_counterexample:
  "resultOf (BalanceEnquiry 3 simEnv simClient (simWorld 2)) = Some (Inr simBalance) \<and>
   length (filter isDo (traceOf (BalanceEnquiry 3 simEnv simClient (simWorld 2)))) = 3"
proof -
  have "Suc 2 = 3" by simp
  with sim_Balance_retries [of 2] show ?thesis by (simp only:)
qed

end
